theory Spec2Isabelle
  imports Complex_Main "HOL-Library.Multiset"
begin

section \<open>Calendar arithmetic of the request handlers\<close>

text \<open>
  The handlers work on JavaScript \<^verbatim>\<open>Date\<close> values: an instant is a whole number of
  milliseconds. All calendar operations of the source (\<^verbatim>\<open>setHours(0,0,0,0)\<close>,
  \<^verbatim>\<open>getDay()\<close>, \<^verbatim>\<open>setDate(getDate() + n)\<close>) are local-time operations. The
  evaluator's zone is taken to have a fixed offset from UTC, so an instant is read
  on the local axis: milliseconds since local midnight of 1970-01-01, a Thursday.
  The shift by the offset preserves order and differences and is left implicit.
\<close>

type_synonym instant = int

definition msPerDay :: int where
  "msPerDay = 86400000"

text \<open>\<^verbatim>\<open>d.setHours(0, 0, 0, 0)\<close>: the local midnight at or before \<open>d\<close>.\<close>

definition setHours0 :: "instant \<Rightarrow> instant" where
  "setHours0 d = d - d mod msPerDay"

text \<open>\<^verbatim>\<open>d.getDay()\<close>: day of the week, 0 for Sunday.\<close>

definition getDay :: "instant \<Rightarrow> int" where
  "getDay d = (d div msPerDay + 4) mod 7"

text \<open>\<^verbatim>\<open>d.setDate(d.getDate() + n)\<close>: the same time of day, \<open>n\<close> calendar days later.\<close>

definition addDays :: "instant \<Rightarrow> int \<Rightarrow> instant" where
  "addDays d n = d + n * msPerDay"

section \<open>Rows of the persistence store\<close>

datatype frequency = Daily | Weekly

record completion =
  c_id :: string
  c_habitId :: string
  c_userId :: string
  completedAt :: instant
  c_notes :: "string option"

section \<open>Streak, completion flag and progress\<close>

text \<open>
  The include clause \<^verbatim>\<open>completions: { orderBy: { completedAt: "desc" }, take: 30 }\<close>
  of the three queries that feed the streak loops.
\<close>

definition orderByCompletedAtDesc :: "completion list \<Rightarrow> completion list" where
  "orderByCompletedAtDesc cs = sort_key (\<lambda>c. - completedAt c) cs"

definition last30 :: "completion list \<Rightarrow> completion list" where
  "last30 cs = take 30 (orderByCompletedAtDesc cs)"

text \<open>
  The daily loop: \<open>checkDate\<close> is the cursor, \<open>streak\<close> the counter; an equal day counts
  and moves the cursor back one day, an earlier day is the \<^verbatim>\<open>break\<close>, a later day
  is skipped.
\<close>

fun streakDaily :: "instant \<Rightarrow> nat \<Rightarrow> completion list \<Rightarrow> nat" where
  "streakDaily checkDate streak [] = streak"
| "streakDaily checkDate streak (c # cs) =
     (let completionDate = setHours0 (completedAt c) in
      if completionDate = checkDate then streakDaily (addDays checkDate (- 1)) (streak + 1) cs
      else if completionDate < checkDate then streak
      else streakDaily checkDate streak cs)"

text \<open>The weekly loop: the completion is moved to its Sunday, then to midnight.\<close>

fun streakWeekly :: "instant \<Rightarrow> nat \<Rightarrow> completion list \<Rightarrow> nat" where
  "streakWeekly checkWeek streak [] = streak"
| "streakWeekly checkWeek streak (c # cs) =
     (let completionDate = completedAt c;
          completionWeekStart = setHours0 (addDays completionDate (- getDay completionDate)) in
      if completionWeekStart = checkWeek then streakWeekly (addDays checkWeek (- 7)) (streak + 1) cs
      else if completionWeekStart < checkWeek then streak
      else streakWeekly checkWeek streak cs)"

definition currentStreak :: "frequency \<Rightarrow> completion list \<Rightarrow> instant \<Rightarrow> nat" where
  "currentStreak f completions now =
     (let today = setHours0 now in
      if f = Daily then streakDaily today 0 completions
      else (let weekStart = addDays today (- getDay today) in
            streakWeekly weekStart 0 completions))"

text \<open>
  \<^verbatim>\<open>completions.some(...)\<close> of the habits listing. The weekly branch moves the
  completion to its Sunday and compares; it does not call \<^verbatim>\<open>setHours(0,0,0,0)\<close> on it.
\<close>

definition completedToday :: "frequency \<Rightarrow> completion list \<Rightarrow> instant \<Rightarrow> bool" where
  "completedToday f completions now =
     (let today = setHours0 now in
      list_ex (\<lambda>c.
        let completionDate = completedAt c in
        if f = Daily then setHours0 completionDate = today
        else (let weekStart = addDays today (- getDay today);
                  completionWeekStart = addDays completionDate (- getDay completionDate) in
              completionWeekStart = weekStart)) completions)"

text \<open>
  The progress percentage. The handler reads the clock once for \<open>today\<close> and again for
  \<open>thirtyDaysAgo\<close>; both readings are the one instant \<open>now\<close>.
  \<^verbatim>\<open>Math.round\<close> rounds halves up, as \<^const>\<open>round\<close> does.
  The source divides in double precision; the list has at most 30 rows and the exact
  quotient \<open>100 * n / 30\<close> or \<open>100 * n / 5\<close> is never within a sixth of a half-integer,
  so the rounded double is the rounded exact quotient, which the model computes.
\<close>

definition expectedCompletions :: "frequency \<Rightarrow> int" where
  "expectedCompletions f = (if f = Daily then 30 else \<lceil>(30 :: real) / 7\<rceil>)"

definition recentCompletions :: "completion list \<Rightarrow> instant \<Rightarrow> completion list" where
  "recentCompletions completions now =
     (let thirtyDaysAgo = addDays now (- 30) in
      filter (\<lambda>c. completedAt c \<ge> thirtyDaysAgo) completions)"

definition progress :: "frequency \<Rightarrow> completion list \<Rightarrow> instant \<Rightarrow> int" where
  "progress f completions now =
     min 100 (round (real (length (recentCompletions completions now))
                     / real_of_int (expectedCompletions f) * 100))"

record stats =
  streak :: nat
  completedCurrentPeriod :: bool
  progressPercent :: int

text \<open>The callback of \<^verbatim>\<open>habits.map\<close> on the rows the query fetched.\<close>

definition habitWithStats :: "frequency \<Rightarrow> completion list \<Rightarrow> instant \<Rightarrow> stats" where
  "habitWithStats f completions now =
     \<lparr> streak = currentStreak f completions now,
       completedCurrentPeriod = completedToday f completions now,
       progressPercent = progress f completions now \<rparr>"

text \<open>Query and callback together: the engine on a habit's stored completions.\<close>

definition computeHabitStats :: "frequency \<Rightarrow> completion list \<Rightarrow> instant \<Rightarrow> stats" where
  "computeHabitStats f completions asOf = habitWithStats f (last30 completions) asOf"

section \<open>The store and the responses\<close>

text \<open>
  The object-relational mapper and the database are outside the repository. A table is
  modelled as the list of its rows in insertion order; \<^verbatim>\<open>findFirst\<close> without an order
  returns the first matching row of that list, \<^verbatim>\<open>create\<close> appends a row whose id the
  mapper generates (a parameter of the handler here), \<^verbatim>\<open>delete\<close> removes the row with
  the given id. Persistence failures (the handlers' status 500) are not modelled.
  The signed-in user that \<^verbatim>\<open>getCurrentUser\<close> returns is a parameter of each handler,
  \<open>None\<close> for a request that is not authenticated.
\<close>

datatype category = Health | Study | Personal | Work

record user =
  u_id :: string
  u_email :: string
  u_username :: string
  u_password :: string
  u_bio :: "string option"
  u_avatar :: "string option"
  u_createdAt :: instant

record habit =
  h_id :: string
  h_userId :: string
  h_name :: string
  h_category :: category
  h_frequency :: frequency
  h_notes :: "string option"
  h_color :: string
  h_createdAt :: instant

record friendship =
  f_id :: string
  followerId :: string
  followingId :: string
  f_createdAt :: instant

record store =
  users :: "user list"
  habits :: "habit list"
  completions :: "completion list"
  friendships :: "friendship list"

text \<open>
  \<^verbatim>\<open>NextResponse.json({ error: msg }, { status })\<close> is \<open>Error status msg\<close>; a success
  carries its status and its payload.
\<close>

datatype 'a response = Error nat string | Ok nat 'a

record publicUser =
  pu_id :: string
  pu_email :: string
  pu_username :: string
  pu_bio :: "string option"
  pu_avatar :: "string option"

text \<open>The fields of a user row that a response shows (the creation time, which signup
  and the profile update also return, is left out).\<close>

definition selectPublic :: "user \<Rightarrow> publicUser" where
  "selectPublic u =
     \<lparr> pu_id = u_id u, pu_email = u_email u, pu_username = u_username u,
       pu_bio = u_bio u, pu_avatar = u_avatar u \<rparr>"

subsection \<open>Strings\<close>

text \<open>
  Case-insensitive comparison (\<^verbatim>\<open>mode: "insensitive"\<close>, \<^verbatim>\<open>toLowerCase()\<close>) on ASCII
  letters, and \<^verbatim>\<open>trim()\<close>. A character is read as a code point below 256; the white
  space that \<^verbatim>\<open>trim()\<close> strips there is the space, the characters 9 to 13 and the
  no-break space 160.
\<close>

definition lowerChar :: "char \<Rightarrow> char" where
  "lowerChar c = (let n = (of_char c :: nat) in if 65 \<le> n \<and> n \<le> 90 then char_of (n + 32) else c)"

definition toLowerCase :: "string \<Rightarrow> string" where
  "toLowerCase s = map lowerChar s"

definition equalsInsensitive :: "string \<Rightarrow> string \<Rightarrow> bool" where
  "equalsInsensitive a b = (toLowerCase a = toLowerCase b)"

definition isSpace :: "char \<Rightarrow> bool" where
  "isSpace c = (let n = (of_char c :: nat) in n = 32 \<or> (9 \<le> n \<and> n \<le> 13) \<or> n = 160)"

definition trim :: "string \<Rightarrow> string" where
  "trim s = rev (dropWhile isSpace (rev (dropWhile isSpace s)))"

section \<open>GET /api/habits\<close>

record habitEntry =
  he_habit :: habit
  he_stats :: stats
  he_totalCompletions :: nat

definition completionsOfHabit :: "store \<Rightarrow> string \<Rightarrow> completion list" where
  "completionsOfHabit db hid = filter (\<lambda>c. c_habitId c = hid) (completions db)"

definition GET_habits :: "store \<Rightarrow> user option \<Rightarrow> instant \<Rightarrow> habitEntry list response" where
  "GET_habits db user now =
     (case user of
        None \<Rightarrow> Error 401 ''Not authenticated''
      | Some u \<Rightarrow>
          Ok 200
            (map (\<lambda>h. \<lparr> he_habit = h,
                        he_stats = computeHabitStats (h_frequency h) (completionsOfHabit db (h_id h)) now,
                        he_totalCompletions = length (completionsOfHabit db (h_id h)) \<rparr>)
               (sort_key (\<lambda>h. - h_createdAt h) (filter (\<lambda>h. h_userId h = u_id u) (habits db)))))"

section \<open>GET /api/profile\<close>

record profileHabit =
  ph_habit :: habit
  ph_streak :: nat
  ph_progress :: int
  ph_totalCompletions :: nat

record profile =
  p_user :: publicUser
  p_totalHabits :: nat
  p_totalCompletions :: nat
  p_followersCount :: nat
  p_followingCount :: nat
  p_currentStreak :: nat
  p_longestStreak :: nat
  p_habits :: "profileHabit list"

definition profileHabitsWithStats :: "store \<Rightarrow> string \<Rightarrow> instant \<Rightarrow> profileHabit list" where
  "profileHabitsWithStats db uid now =
     map (\<lambda>h. let completions = last30 (completionsOfHabit db (h_id h)) in
            \<lparr> ph_habit = h,
              ph_streak = currentStreak (h_frequency h) completions now,
              ph_progress = progress (h_frequency h) completions now,
              ph_totalCompletions = length (completionsOfHabit db (h_id h)) \<rparr>)
       (filter (\<lambda>h. h_userId h = uid) (habits db))"

definition GET_profile :: "store \<Rightarrow> user option \<Rightarrow> instant \<Rightarrow> profile response" where
  "GET_profile db user now =
     (case user of
        None \<Rightarrow> Error 401 ''Not authenticated''
      | Some u \<Rightarrow>
          (case find (\<lambda>r. u_id r = u_id u) (users db) of
             None \<Rightarrow> Error 404 ''User not found''
           | Some userProfile \<Rightarrow>
               (let habitsWithStats = profileHabitsWithStats db (u_id userProfile) now;
                    currentStreak' = (if length habitsWithStats > 0
                                      then Max (set (map ph_streak habitsWithStats)) else 0);
                    longestStreak = currentStreak' in
                Ok 200
                  \<lparr> p_user = selectPublic userProfile,
                    p_totalHabits = length (filter (\<lambda>h. h_userId h = u_id userProfile) (habits db)),
                    p_totalCompletions = length (filter (\<lambda>c. c_userId c = u_id userProfile) (completions db)),
                    p_followersCount = length (filter (\<lambda>f. followingId f = u_id userProfile) (friendships db)),
                    p_followingCount = length (filter (\<lambda>f. followerId f = u_id userProfile) (friendships db)),
                    p_currentStreak = currentStreak',
                    p_longestStreak = longestStreak,
                    p_habits = habitsWithStats \<rparr>)))"

section \<open>GET /api/friends, the activity feed\<close>

text \<open>An event of the feed: the completion row, the selected fields of its user and of
  its habit (the joins of the query), and the streak attached afterwards.\<close>

record activityUser =
  au_id :: string
  au_username :: string
  au_avatar :: "string option"

record activityHabit =
  ah_id :: string
  ah_name :: string
  ah_category :: category
  ah_frequency :: frequency
  ah_color :: string

record activityEvent =
  a_completion :: completion
  a_user :: "activityUser option"
  a_habit :: "activityHabit option"
  a_streak :: nat

definition selectActivityUser :: "user \<Rightarrow> activityUser" where
  "selectActivityUser u = \<lparr> au_id = u_id u, au_username = u_username u, au_avatar = u_avatar u \<rparr>"

definition selectActivityHabit :: "habit \<Rightarrow> activityHabit" where
  "selectActivityHabit h =
     \<lparr> ah_id = h_id h, ah_name = h_name h, ah_category = h_category h,
       ah_frequency = h_frequency h, ah_color = h_color h \<rparr>"

definition followedUserIds :: "store \<Rightarrow> string \<Rightarrow> string list" where
  "followedUserIds db uid = map followingId (filter (\<lambda>f. followerId f = uid) (friendships db))"

text \<open>\<^verbatim>\<open>completion.findMany\<close> with \<^verbatim>\<open>userId: { in: ids }\<close>, newest first, \<^verbatim>\<open>take: 50\<close>.\<close>

definition recentActivity :: "store \<Rightarrow> string list \<Rightarrow> completion list" where
  "recentActivity db ids =
     take 50 (orderByCompletedAtDesc (filter (\<lambda>c. c_userId c \<in> set ids) (completions db)))"

text \<open>
  The streak attached to one event: the habit is fetched again with the acting user's
  last 30 completions of it; a missing habit leaves the streak at 0.
\<close>

definition activityStreak :: "store \<Rightarrow> completion \<Rightarrow> instant \<Rightarrow> nat" where
  "activityStreak db activity now =
     (case find (\<lambda>h. h_id h = c_habitId activity) (habits db) of
        None \<Rightarrow> 0
      | Some h \<Rightarrow>
          currentStreak (h_frequency h)
            (last30 (filter (\<lambda>c. c_userId c = c_userId activity) (completionsOfHabit db (h_id h))))
            now)"

definition buildActivityFeed :: "store \<Rightarrow> string \<Rightarrow> instant \<Rightarrow> activityEvent list" where
  "buildActivityFeed db viewerId now =
     map (\<lambda>activity.
            \<lparr> a_completion = activity,
              a_user = map_option selectActivityUser (find (\<lambda>u. u_id u = c_userId activity) (users db)),
              a_habit = map_option selectActivityHabit (find (\<lambda>h. h_id h = c_habitId activity) (habits db)),
              a_streak = activityStreak db activity now \<rparr>)
       (recentActivity db (followedUserIds db viewerId))"

definition GET_friends_activity :: "store \<Rightarrow> user option \<Rightarrow> instant \<Rightarrow> activityEvent list response" where
  "GET_friends_activity db user now =
     (case user of
        None \<Rightarrow> Error 401 ''Not authenticated''
      | Some u \<Rightarrow> Ok 200 (buildActivityFeed db (u_id u) now))"

section \<open>POST and DELETE /api/habits/[id]/checkin\<close>

text \<open>
  The window of the current period as both handlers compute it: from local midnight
  to the next one for a daily habit, from the Sunday at or before today to seven
  days later for a weekly one. The query filters on the habit id of the request, which
  is the id of the habit found before; the model reads it from that habit.
\<close>

definition periodWindow :: "frequency \<Rightarrow> instant \<Rightarrow> instant \<times> instant" where
  "periodWindow f now =
     (let today = setHours0 now in
      if f = Daily then (let tomorrow = addDays today 1 in (today, tomorrow))
      else (let weekStart = addDays today (- getDay today);
                weekEnd = addDays weekStart 7 in (weekStart, weekEnd)))"

definition findCompletionInPeriod :: "store \<Rightarrow> habit \<Rightarrow> string \<Rightarrow> instant \<Rightarrow> completion option" where
  "findCompletionInPeriod db h uid now =
     (let (gte, lt) = periodWindow (h_frequency h) now in
      find (\<lambda>c. c_habitId c = h_id h \<and> c_userId c = uid \<and> gte \<le> completedAt c \<and> completedAt c < lt)
        (completions db))"

definition findOwnedHabit :: "store \<Rightarrow> string \<Rightarrow> string \<Rightarrow> habit option" where
  "findOwnedHabit db hid uid = find (\<lambda>h. h_id h = hid \<and> h_userId h = uid) (habits db)"

text \<open>
  Check-in. \<open>newId\<close> is the id the mapper gives the new row. The handler reads the clock
  for the window and again for the stamp; both readings are the one instant \<open>now\<close>.
\<close>

definition POST_checkin ::
  "store \<Rightarrow> user option \<Rightarrow> string \<Rightarrow> string option \<Rightarrow> string \<Rightarrow> instant \<Rightarrow> completion response \<times> store" where
  "POST_checkin db user hid notes newId now =
     (case user of
        None \<Rightarrow> (Error 401 ''Not authenticated'', db)
      | Some u \<Rightarrow>
          (case findOwnedHabit db hid (u_id u) of
             None \<Rightarrow> (Error 404 ''Habit not found'', db)
           | Some h \<Rightarrow>
               (case findCompletionInPeriod db h (u_id u) now of
                  Some existingCompletion \<Rightarrow> (Error 400 ''Already completed for this period'', db)
                | None \<Rightarrow>
                    (let completion = \<lparr> c_id = newId, c_habitId = hid, c_userId = u_id u,
                                        completedAt = now, c_notes = map_option trim notes \<rparr> in
                     (Ok 201 completion, db\<lparr>completions := completions db @ [completion]\<rparr>)))))"

definition DELETE_checkin :: "store \<Rightarrow> user option \<Rightarrow> string \<Rightarrow> instant \<Rightarrow> string response \<times> store" where
  "DELETE_checkin db user hid now =
     (case user of
        None \<Rightarrow> (Error 401 ''Not authenticated'', db)
      | Some u \<Rightarrow>
          (case findOwnedHabit db hid (u_id u) of
             None \<Rightarrow> (Error 404 ''Habit not found'', db)
           | Some h \<Rightarrow>
               (case findCompletionInPeriod db h (u_id u) now of
                  None \<Rightarrow> (Error 404 ''No completion found for this period'', db)
                | Some completion \<Rightarrow>
                    (Ok 200 ''Check-in removed successfully'',
                     db\<lparr>completions := filter (\<lambda>c. c_id c \<noteq> c_id completion) (completions db)\<rparr>))))"

section \<open>POST /api/auth/login\<close>

text \<open>
  The schema library's email test, the password verification and the token generator
  are outside the repository and are parameters. The body is taken to hold two
  strings. A successful login answers with the user's public fields and sets the
  cookie to the token; a failure sets no cookie.
\<close>

definition loginSchema :: "(string \<Rightarrow> bool) \<Rightarrow> string \<Rightarrow> string \<Rightarrow> string + unit" where
  "loginSchema isEmail email password =
     (if \<not> isEmail email then Inl ''Invalid email address''
      else if length password < 1 then Inl ''Password is required''
      else Inr ())"

definition POST_login ::
  "(string \<Rightarrow> bool) \<Rightarrow> (string \<Rightarrow> string \<Rightarrow> bool) \<Rightarrow> (string \<Rightarrow> string) \<Rightarrow>
   store \<Rightarrow> string \<Rightarrow> string \<Rightarrow> (publicUser \<times> string) response" where
  "POST_login isEmail verifyPassword generateToken db email password =
     (case loginSchema isEmail email password of
        Inl errorMessage \<Rightarrow> Error 400 errorMessage
      | Inr _ \<Rightarrow>
          (case find (\<lambda>u. equalsInsensitive (u_email u) (toLowerCase email)) (users db) of
             None \<Rightarrow> Error 401 ''Invalid email or password''
           | Some user \<Rightarrow>
               if \<not> verifyPassword password (u_password user)
               then Error 401 ''Invalid email or password''
               else Ok 200 (selectPublic user, generateToken (u_id user))))"

section \<open>POST /api/auth/signup\<close>

definition isLowerAZ :: "char \<Rightarrow> bool" where
  "isLowerAZ c = (let n = (of_char c :: nat) in 97 \<le> n \<and> n \<le> 122)"

definition isUpperAZ :: "char \<Rightarrow> bool" where
  "isUpperAZ c = (let n = (of_char c :: nat) in 65 \<le> n \<and> n \<le> 90)"

definition isDigit :: "char \<Rightarrow> bool" where
  "isDigit c = (let n = (of_char c :: nat) in 48 \<le> n \<and> n \<le> 57)"

text \<open>The password pattern: a lower-case letter, an upper-case letter, a digit, at least
  eight characters, all of them letters, digits or one of \<^verbatim>\<open>@$!%*?&\<close>.\<close>

definition passwordPattern :: "string \<Rightarrow> bool" where
  "passwordPattern p =
     (list_ex isLowerAZ p \<and> list_ex isUpperAZ p \<and> list_ex isDigit p \<and> 8 \<le> length p \<and>
      list_all (\<lambda>c. isLowerAZ c \<or> isUpperAZ c \<or> isDigit c \<or> c \<in> set ''@$!%*?&'') p)"

definition usernamePattern :: "string \<Rightarrow> bool" where
  "usernamePattern n =
     (1 \<le> length n \<and> list_all (\<lambda>c. isLowerAZ c \<or> isUpperAZ c \<or> isDigit c \<or> c \<in> set ''_-'') n)"

text \<open>The schema reports the first rule violated, in the order of its fields and of the
  rules of each field; on success the email is trimmed and lower-cased, the username
  trimmed.\<close>

definition signupSchema :: "(string \<Rightarrow> bool) \<Rightarrow> string \<Rightarrow> string \<Rightarrow> string \<Rightarrow> string + string \<times> string" where
  "signupSchema isEmail email password username =
     (if \<not> isEmail email then Inl ''Invalid email address''
      else if length email < 1 then Inl ''Email is required''
      else if length email > 255 then Inl ''Email is too long''
      else if length password < 8 then Inl ''Password must be at least 8 characters''
      else if length password > 100 then Inl ''Password is too long''
      else if \<not> passwordPattern password
        then Inl ''Password must contain at least one uppercase letter, one lowercase letter, and one number''
      else if length username < 3 then Inl ''Username must be at least 3 characters''
      else if length username > 30 then Inl ''Username is too long''
      else if \<not> usernamePattern username
        then Inl ''Username can only contain letters, numbers, underscores, and hyphens''
      else Inr (toLowerCase (trim email), trim username))"

definition POST_signup ::
  "(string \<Rightarrow> bool) \<Rightarrow> (string \<Rightarrow> string) \<Rightarrow> (string \<Rightarrow> string) \<Rightarrow>
   store \<Rightarrow> string \<Rightarrow> string \<Rightarrow> string \<Rightarrow> string \<Rightarrow> instant \<Rightarrow> (publicUser \<times> string) response \<times> store" where
  "POST_signup isEmail hashPassword generateToken db emailIn password usernameIn newId now =
     (case signupSchema isEmail emailIn password usernameIn of
        Inl errorMessage \<Rightarrow> (Error 400 errorMessage, db)
      | Inr (email, username) \<Rightarrow>
          (case find (\<lambda>u. equalsInsensitive (u_email u) email \<or> equalsInsensitive (u_username u) username)
                  (users db) of
             Some existingUser \<Rightarrow>
               (Error 400 (if toLowerCase (u_email existingUser) = toLowerCase email
                           then ''Email already registered'' else ''Username already taken''), db)
           | None \<Rightarrow>
               (let newUser = \<lparr> u_id = newId, u_email = email, u_username = username,
                                 u_password = hashPassword password, u_bio = None, u_avatar = None,
                                 u_createdAt = now \<rparr> in
                (Ok 201 (selectPublic newUser, generateToken newId),
                 db\<lparr>users := users db @ [newUser]\<rparr>))))"

section \<open>PUT /api/profile\<close>

record updateData =
  ud_username :: "string option"
  ud_bio :: "string option"
  ud_avatar :: "string option"

definition updateProfileSchema :: "(string \<Rightarrow> bool) \<Rightarrow> updateData \<Rightarrow> string + updateData" where
  "updateProfileSchema isUrl body =
     (if (case ud_username body of None \<Rightarrow> False | Some n \<Rightarrow> length n < 3)
        then Inl ''Username must be at least 3 characters''
      else if (case ud_bio body of None \<Rightarrow> False | Some b \<Rightarrow> length b > 500)
        then Inl ''Bio must be less than 500 characters''
      else if (case ud_avatar body of None \<Rightarrow> False | Some a \<Rightarrow> \<not> isUrl a)
        then Inl ''Invalid avatar URL''
      else Inr body)"

text \<open>\<^verbatim>\<open>user.update({ where: { id }, data })\<close>: only the fields present in the data change.\<close>

definition applyUpdate :: "updateData \<Rightarrow> user \<Rightarrow> user" where
  "applyUpdate d u =
     u\<lparr> u_username := (case ud_username d of None \<Rightarrow> u_username u | Some n \<Rightarrow> n),
        u_bio := (case ud_bio d of None \<Rightarrow> u_bio u | Some b \<Rightarrow> Some b),
        u_avatar := (case ud_avatar d of None \<Rightarrow> u_avatar u | Some a \<Rightarrow> Some a) \<rparr>"

text \<open>The duplicate test of the profile update: \<^verbatim>\<open>findUnique({ where: { username } })\<close>,
  an exact comparison. It runs only when a username is given that differs from the
  requesting user's own.\<close>

definition usernameTaken :: "store \<Rightarrow> user \<Rightarrow> updateData \<Rightarrow> bool" where
  "usernameTaken db user d =
     (case ud_username d of
        None \<Rightarrow> False
      | Some n \<Rightarrow> n \<noteq> [] \<and> n \<noteq> u_username user \<and> find (\<lambda>u. u_username u = n) (users db) \<noteq> None)"

definition PUT_profile ::
  "(string \<Rightarrow> bool) \<Rightarrow> store \<Rightarrow> user option \<Rightarrow> updateData \<Rightarrow> publicUser response \<times> store" where
  "PUT_profile isUrl db user body =
     (case user of
        None \<Rightarrow> (Error 401 ''Not authenticated'', db)
      | Some u \<Rightarrow>
          (case updateProfileSchema isUrl body of
             Inl errorMessage \<Rightarrow> (Error 400 errorMessage, db)
           | Inr d \<Rightarrow>
               if usernameTaken db u d then (Error 400 ''Username already taken'', db)
               else (case find (\<lambda>r. u_id r = u_id u) (users db) of
                       None \<Rightarrow> (Error 500 ''Internal server error'', db)
                     | Some r \<Rightarrow>
                         (Ok 200 (selectPublic (applyUpdate d r)),
                          db\<lparr>users := map (\<lambda>x. if u_id x = u_id u then applyUpdate d x else x) (users db)\<rparr>))))"

text \<open>The invariant of the data model: no two users' usernames are equal up to case.\<close>

definition usernamesUniqueCI :: "store \<Rightarrow> bool" where
  "usernamesUniqueCI db = distinct (map (\<lambda>u. toLowerCase (u_username u)) (users db))"

section \<open>Notions used in the statements\<close>

text \<open>The start of the week of an instant, as the weekly streak loop computes it, and
  the start and the length of a period for either frequency.\<close>

definition weekStartOf :: "instant \<Rightarrow> instant" where
  "weekStartOf d = setHours0 (addDays d (- getDay d))"

definition periodStart :: "frequency \<Rightarrow> instant \<Rightarrow> instant" where
  "periodStart f d = (if f = Daily then setHours0 d else weekStartOf d)"

definition periodMs :: "frequency \<Rightarrow> int" where
  "periodMs f = (if f = Daily then msPerDay else 7 * msPerDay)"

text \<open>The common shape of the two streak loops, on the bare timestamps.\<close>

fun periodWalk :: "(instant \<Rightarrow> instant) \<Rightarrow> int \<Rightarrow> instant \<Rightarrow> nat \<Rightarrow> instant list \<Rightarrow> nat" where
  "periodWalk start step cursor n [] = n"
| "periodWalk start step cursor n (t # ts) =
     (if start t = cursor then periodWalk start step (cursor - step) (Suc n) ts
      else if start t < cursor then n
      else periodWalk start step cursor n ts)"

text \<open>A run of completions, newest first, one in the period that starts at \<open>cursor\<close> and one
  in each period before it, without a gap.\<close>

fun consecutiveFrom :: "frequency \<Rightarrow> instant \<Rightarrow> completion list \<Rightarrow> bool" where
  "consecutiveFrom f cursor [] = True"
| "consecutiveFrom f cursor (c # cs) =
     (periodStart f (completedAt c) = cursor \<and> consecutiveFrom f (cursor - periodMs f) cs)"

text \<open>Each of the \<open>n\<close> periods up to and including the period of \<open>asOf\<close> holds at least
  one of the completions.\<close>

definition runOfPeriods :: "frequency \<Rightarrow> instant \<Rightarrow> nat \<Rightarrow> completion list \<Rightarrow> bool" where
  "runOfPeriods f asOf n cs =
     list_all (\<lambda>i. list_ex (\<lambda>c. periodStart f (completedAt c) = periodStart f asOf - int i * periodMs f) cs)
       [0..<n]"

section \<open>Concrete data for the examples\<close>

definition day0 :: instant where
  "day0 = 19725 * msPerDay"

text \<open>\<open>day0\<close> is local midnight of 2024-01-03, a Wednesday; \<open>rowAt i t\<close> is a completion of
  habit \<open>h1\<close> by user \<open>u1\<close> at instant \<open>t\<close>.\<close>

definition rowAt :: "string \<Rightarrow> instant \<Rightarrow> completion" where
  "rowAt i t = \<lparr> c_id = i, c_habitId = ''h1'', c_userId = ''u1'', completedAt = t, c_notes = None \<rparr>"

text \<open>A small store: alice owns the daily habit \<open>h1\<close>, bob the weekly habit \<open>h2\<close>;
  alice follows bob; the clock reads 10:00 on 2024-01-03.\<close>

definition exAlice :: user where
  "exAlice = \<lparr> u_id = ''u1'', u_email = ''alice@example.org'', u_username = ''alice'',
               u_password = ''hash-a'', u_bio = None, u_avatar = None, u_createdAt = 0 \<rparr>"

definition exBob :: user where
  "exBob = \<lparr> u_id = ''u2'', u_email = ''bob@example.org'', u_username = ''bob'',
             u_password = ''hash-b'', u_bio = None, u_avatar = None, u_createdAt = 1 \<rparr>"

definition exHabit1 :: habit where
  "exHabit1 = \<lparr> h_id = ''h1'', h_userId = ''u1'', h_name = ''Run'', h_category = Health,
                h_frequency = Daily, h_notes = None, h_color = ''#3b82f6'', h_createdAt = 2 \<rparr>"

definition exHabit2 :: habit where
  "exHabit2 = \<lparr> h_id = ''h2'', h_userId = ''u2'', h_name = ''Read'', h_category = Study,
                h_frequency = Weekly, h_notes = None, h_color = ''#3b82f6'', h_createdAt = 3 \<rparr>"

definition exStore :: store where
  "exStore =
     \<lparr> users = [exAlice, exBob],
       habits = [exHabit1, exHabit2],
       completions =
         [rowAt ''c1'' (day0 - 2 * msPerDay + 5000),
          rowAt ''c2'' (day0 - msPerDay + 1000),
          \<lparr> c_id = ''c3'', c_habitId = ''h2'', c_userId = ''u2'', completedAt = day0 - 6 * msPerDay,
            c_notes = None \<rparr>,
          \<lparr> c_id = ''c4'', c_habitId = ''h2'', c_userId = ''u2'', completedAt = day0 - 3 * msPerDay,
            c_notes = Some ''chapter 2'' \<rparr>],
       friendships = [\<lparr> f_id = ''f1'', followerId = ''u1'', followingId = ''u2'', f_createdAt = 4 \<rparr>] \<rparr>"

definition exNow :: instant where
  "exNow = day0 + 36000000"

text \<open>Stand-ins for the functions outside the repository: an email test, a password hash
  with its verification, a token generator and a URL test.\<close>

definition exIsEmail :: "string \<Rightarrow> bool" where
  "exIsEmail s = (CHR ''@'' \<in> set s)"

definition exHashPassword :: "string \<Rightarrow> string" where
  "exHashPassword p = ''hash-'' @ p"

definition exVerifyPassword :: "string \<Rightarrow> string \<Rightarrow> bool" where
  "exVerifyPassword p h = (h = exHashPassword p)"

definition exGenerateToken :: "string \<Rightarrow> string" where
  "exGenerateToken i = ''token-'' @ i"

definition exIsUrl :: "string \<Rightarrow> bool" where
  "exIsUrl s = (take 8 s = ''https://'')"

text \<open>\<open>dailyRun n\<close>: one completion at noon of each of the \<open>n\<close> days up to and including
  the day of \<open>day0\<close>, newest first.\<close>

definition dailyRun :: "nat \<Rightarrow> completion list" where
  "dailyRun n = map (\<lambda>i. rowAt (replicate (Suc i) CHR ''c'') (day0 + 43200000 - int i * msPerDay)) [0..<n]"

text \<open>\<open>weeklyRun n\<close>: one completion on Wednesday noon of each of the \<open>n\<close> weeks up to and
  including the week of \<open>day0\<close>, newest first.\<close>

definition weeklyRun :: "nat \<Rightarrow> completion list" where
  "weeklyRun n =
     map (\<lambda>i. rowAt (replicate (Suc i) CHR ''w'') (day0 + 43200000 - int i * (7 * msPerDay))) [0..<n]"

text \<open>A store in which alice's daily habit has a completion on each of the last 31 days and
  bob follows alice.\<close>

definition exLongStore :: store where
  "exLongStore =
     \<lparr> users = [exAlice, exBob],
       habits = [exHabit1],
       completions = dailyRun 31,
       friendships = [\<lparr> f_id = ''f2'', followerId = ''u2'', followingId = ''u1'', f_createdAt = 5 \<rparr>] \<rparr>"

section \<open>Facts about the calendar arithmetic and the loops\<close>

lemma streakDaily_walk:
  "streakDaily cd n cs = periodWalk setHours0 msPerDay cd n (map completedAt cs)"
  by (induction cs arbitrary: cd n) (simp_all add: Let_def addDays_def)

lemma streakWeekly_walk:
  "streakWeekly cw n cs = periodWalk weekStartOf (7 * msPerDay) cw n (map completedAt cs)"
  by (induction cs arbitrary: cw n) (simp_all add: Let_def addDays_def weekStartOf_def)

lemma setHours0_eq: "setHours0 d = (d div msPerDay) * msPerDay"
  by (simp add: setHours0_def minus_mod_eq_div_mult)

lemma weekStartOf_eq: "weekStartOf d = (d div msPerDay - (d div msPerDay + 4) mod 7) * msPerDay"
proof -
  have "(d + - ((d div msPerDay + 4) mod 7) * msPerDay) div msPerDay
          = d div msPerDay - (d div msPerDay + 4) mod 7"
    by (simp add: msPerDay_def)
  then show ?thesis
    by (simp add: weekStartOf_def setHours0_eq addDays_def getDay_def)
qed

lemma weekStart_today: "addDays (setHours0 now) (- getDay (setHours0 now)) = weekStartOf now"
  by (simp add: weekStartOf_eq addDays_def getDay_def setHours0_eq msPerDay_def algebra_simps)

lemma periodStart_Daily: "periodStart Daily = setHours0"
  by (rule ext) (simp add: periodStart_def)

lemma periodStart_Weekly: "periodStart Weekly = weekStartOf"
  by (rule ext) (simp add: periodStart_def)

lemma currentStreak_walk:
  "currentStreak f cs now =
     periodWalk (periodStart f) (periodMs f) (periodStart f now) 0 (map completedAt cs)"
  by (cases f) (simp_all add: currentStreak_def Let_def streakDaily_walk streakWeekly_walk
      periodStart_Daily periodStart_Weekly periodMs_def weekStart_today)

lemma times_orderBy:
  "map (\<lambda>c. - completedAt c) (orderByCompletedAtDesc cs) = sort (map (\<lambda>c. - completedAt c) cs)"
  unfolding orderByCompletedAtDesc_def
  by (rule properties_for_sort[symmetric]) (simp_all add: sorted_sort_key)

lemma times_orderBy_perm:
  assumes "mset xs = mset ys"
  shows "map completedAt (orderByCompletedAtDesc xs) = map completedAt (orderByCompletedAtDesc ys)"
proof -
  have "mset (map (\<lambda>c. - completedAt c) xs) = mset (map (\<lambda>c. - completedAt c) ys)"
    using assms by (metis mset_map)
  then have "sort (map (\<lambda>c. - completedAt c) xs) = sort (map (\<lambda>c. - completedAt c) ys)"
    by (metis properties_for_sort sorted_sort mset_sort)
  then have "map (\<lambda>c. - completedAt c) (orderByCompletedAtDesc xs)
           = map (\<lambda>c. - completedAt c) (orderByCompletedAtDesc ys)"
    by (simp add: times_orderBy)
  then have "map uminus (map completedAt (orderByCompletedAtDesc xs))
           = map uminus (map completedAt (orderByCompletedAtDesc ys))"
    by (simp add: comp_def)
  then show ?thesis
    by (metis (no_types) map_map map_idI comp_apply minus_minus)
qed

lemma completedToday_times:
  "completedToday f cs now =
     list_ex (\<lambda>t. if f = Daily then setHours0 t = setHours0 now
                  else addDays t (- getDay t) = addDays (setHours0 now) (- getDay (setHours0 now)))
       (map completedAt cs)"
  by (simp add: completedToday_def Let_def list_ex_iff)

lemma recent_times:
  "length (recentCompletions cs now) = length (filter (\<lambda>t. addDays now (- 30) \<le> t) (map completedAt cs))"
  by (simp add: recentCompletions_def Let_def filter_map comp_def)

lemma sorted_desc_filter_take:
  assumes "sorted (map (\<lambda>c. - completedAt c) ys)"
  shows "length (filter (\<lambda>c. th \<le> completedAt c) (take n ys))
       = min n (length (filter (\<lambda>c. th \<le> completedAt c) ys))"
  using assms
proof (induction ys arbitrary: n)
  case Nil
  then show ?case by simp
next
  case (Cons y ys)
  show ?case
  proof (cases n)
    case 0
    then show ?thesis by simp
  next
    case (Suc m)
    show ?thesis
    proof (cases "th \<le> completedAt y")
      case True
      with Cons Suc show ?thesis by simp
    next
      case False
      with Cons.prems have "\<forall>c \<in> set ys. \<not> th \<le> completedAt c"
        by auto
      then have "filter (\<lambda>c. th \<le> completedAt c) ys = []"
        by (simp add: filter_empty_conv)
      moreover have "filter (\<lambda>c. th \<le> completedAt c) (take m ys) = []"
        using \<open>\<forall>c \<in> set ys. \<not> th \<le> completedAt c\<close>
        by (auto simp: filter_empty_conv dest: in_set_takeD)
      ultimately show ?thesis using False Suc by simp
    qed
  qed
qed

lemma recent_last30:
  "length (recentCompletions (last30 cs) now) = min 30 (length (recentCompletions cs now))"
proof -
  have "sorted (map (\<lambda>c. - completedAt c) (orderByCompletedAtDesc cs))"
    by (simp add: orderByCompletedAtDesc_def sorted_sort_key)
  then have "length (filter (\<lambda>c. addDays now (- 30) \<le> completedAt c) (take 30 (orderByCompletedAtDesc cs)))
       = min 30 (length (filter (\<lambda>c. addDays now (- 30) \<le> completedAt c) (orderByCompletedAtDesc cs)))"
    by (rule sorted_desc_filter_take)
  moreover have "length (filter (\<lambda>c. addDays now (- 30) \<le> completedAt c) (orderByCompletedAtDesc cs))
      = length (filter (\<lambda>c. addDays now (- 30) \<le> completedAt c) cs)"
    by (simp add: orderByCompletedAtDesc_def filter_sort)
  ultimately show ?thesis
    by (simp add: recentCompletions_def last30_def Let_def)
qed

lemma expected_cases: "expectedCompletions f = (if f = Daily then 30 else 5)"
  by (simp add: expectedCompletions_def)

lemma percent_cap:
  assumes "e = 30 \<or> e = (5::int)"
  shows "min 100 (round (real (min 30 n) / real_of_int e * 100)) = min 100 (round (real n / real_of_int e * 100))"
proof (cases "n \<le> 30")
  case True
  then show ?thesis by (simp add: min_def)
next
  case False
  then have n: "30 < n" by simp
  have a: "(100::int) \<le> round (real (30::nat) / real_of_int e * 100)"
    using assms by auto
  have "real (30::nat) / real_of_int e * 100 \<le> real n / real_of_int e * 100"
    using assms n by (auto simp: divide_right_mono)
  then have "round (real (30::nat) / real_of_int e * 100) \<le> round (real n / real_of_int e * 100)"
    by (rule round_mono)
  with a have b: "100 \<le> round (real n / real_of_int e * 100)" by linarith
  have "min 30 n = 30" using n by simp
  with a b show ?thesis by (simp add: min_def)
qed

lemma progress_computeHabitStats:
  "progressPercent (computeHabitStats f cs asOf)
     = min 100 (round (real (length (recentCompletions cs asOf)) / real_of_int (expectedCompletions f) * 100))"
proof -
  have "expectedCompletions f = 30 \<or> expectedCompletions f = 5"
    by (simp add: expected_cases)
  then have "min 100 (round (real (min 30 (length (recentCompletions cs asOf)))
                              / real_of_int (expectedCompletions f) * 100))
           = min 100 (round (real (length (recentCompletions cs asOf))
                              / real_of_int (expectedCompletions f) * 100))"
    by (rule percent_cap)
  moreover have "progressPercent (computeHabitStats f cs asOf)
           = min 100 (round (real (min 30 (length (recentCompletions cs asOf)))
                              / real_of_int (expectedCompletions f) * 100))"
    by (simp only: computeHabitStats_def habitWithStats_def progress_def recent_last30 stats.simps)
  ultimately show ?thesis by simp
qed

lemma periodMs_pos: "0 < periodMs f"
  by (simp add: periodMs_def msPerDay_def)

lemma periodStart_mono: "a \<le> b \<Longrightarrow> periodStart f a \<le> periodStart f b"
proof -
  assume ab: "a \<le> b"
  then have d: "a div msPerDay \<le> b div msPerDay"
    by (simp add: msPerDay_def zdiv_mono1)
  have w: "\<And>x::int. x - (x + 4) mod 7 = 7 * ((x + 4) div 7) - 4"
    by (simp add: algebra_simps minus_mod_eq_mult_div)
  have "(a div msPerDay + 4) div 7 \<le> (b div msPerDay + 4) div 7"
    using d by (simp add: zdiv_mono1)
  then have "a div msPerDay - (a div msPerDay + 4) mod 7 \<le> b div msPerDay - (b div msPerDay + 4) mod 7"
    by (simp only: w)
  with d show ?thesis
    by (simp add: periodStart_def setHours0_eq weekStartOf_eq msPerDay_def)
qed

lemma periodStart_less: "periodStart f a < periodStart f b \<Longrightarrow> a < b"
  using periodStart_mono[of b a f] by linarith

lemma consecutiveFrom_bound:
  "consecutiveFrom f cursor r \<Longrightarrow> c \<in> set r \<Longrightarrow>
     periodStart f (completedAt c) \<le> cursor \<and> cursor - int (length r) * periodMs f < periodStart f (completedAt c)"
proof (induction r arbitrary: cursor)
  case Nil
  then show ?case by simp
next
  case (Cons x r)
  have p: "0 < periodMs f" by (rule periodMs_pos)
  have q: "0 \<le> int (length r) * periodMs f" using p by simp
  have e: "int (length (x # r)) * periodMs f = periodMs f + int (length r) * periodMs f"
    by (simp add: algebra_simps)
  show ?case
  proof (cases "c = x")
    case True
    with Cons.prems have "periodStart f (completedAt c) = cursor" by simp
    with p q show ?thesis unfolding e by linarith
  next
    case False
    with Cons.prems have "c \<in> set r" "consecutiveFrom f (cursor - periodMs f) r" by auto
    from Cons.IH[OF this(2) this(1)] p show ?thesis unfolding e by linarith
  qed
qed

lemma consecutiveFrom_sorted:
  "consecutiveFrom f cursor r \<Longrightarrow> sorted (map (\<lambda>c. - completedAt c) r)"
proof (induction r arbitrary: cursor)
  case Nil
  then show ?case by simp
next
  case (Cons x r)
  have p: "0 < periodMs f" by (rule periodMs_pos)
  from Cons.prems have x: "periodStart f (completedAt x) = cursor"
    and r: "consecutiveFrom f (cursor - periodMs f) r" by auto
  have "completedAt c < completedAt x" if "c \<in> set r" for c
  proof -
    from consecutiveFrom_bound[OF r that] have "periodStart f (completedAt c) \<le> cursor - periodMs f"
      by simp
    with x p have "periodStart f (completedAt c) < periodStart f (completedAt x)" by simp
    then show ?thesis by (rule periodStart_less)
  qed
  then have "\<forall>c \<in> set r. - completedAt x \<le> - completedAt c" by force
  with Cons.IH[OF r] show ?case by simp
qed

lemma consecutiveFrom_take: "consecutiveFrom f cursor r \<Longrightarrow> consecutiveFrom f cursor (take m r)"
proof (induction r arbitrary: cursor m)
  case Nil
  then show ?case by simp
next
  case (Cons x r)
  then show ?case by (cases m) auto
qed

lemma walk_run:
  "consecutiveFrom f cursor r \<Longrightarrow>
     periodWalk (periodStart f) (periodMs f) cursor n (map completedAt r @ rest)
       = periodWalk (periodStart f) (periodMs f) (cursor - int (length r) * periodMs f) (n + length r) rest"
proof (induction r arbitrary: cursor n)
  case Nil
  then show ?case by simp
next
  case (Cons x r)
  then have "consecutiveFrom f (cursor - periodMs f) r" and "periodStart f (completedAt x) = cursor"
    by auto
  with Cons.IH[of "cursor - periodMs f" "Suc n"] show ?case
    by (simp add: algebra_simps)
qed

lemma walk_stop:
  "list_all (\<lambda>t. start t < cursor) rest \<Longrightarrow> periodWalk start step cursor n rest = n"
  by (cases rest) auto

lemma walk_le: "periodWalk start step cursor n ts \<le> n + length ts"
proof (induction ts arbitrary: cursor n)
  case Nil
  then show ?case by simp
next
  case (Cons t ts)
  have a: "periodWalk start step (cursor - step) (Suc n) ts \<le> Suc n + length ts" by (rule Cons.IH)
  have b: "periodWalk start step cursor n ts \<le> n + length ts" by (rule Cons.IH)
  from a b show ?case by auto
qed

lemma times_orderBy_unique:
  assumes "sorted (map (\<lambda>c. - completedAt c) ys)" and "mset cs = mset ys"
  shows "map completedAt (orderByCompletedAtDesc cs) = map completedAt ys"
proof -
  have "mset (map (\<lambda>c. - completedAt c) ys) = mset (map (\<lambda>c. - completedAt c) cs)"
    using assms(2) by (metis mset_map)
  then have "sort (map (\<lambda>c. - completedAt c) cs) = map (\<lambda>c. - completedAt c) ys"
    using assms(1) by (rule properties_for_sort)
  then have "map (\<lambda>c. - completedAt c) (orderByCompletedAtDesc cs) = map (\<lambda>c. - completedAt c) ys"
    by (simp add: times_orderBy)
  then have "map uminus (map completedAt (orderByCompletedAtDesc cs)) = map uminus (map completedAt ys)"
    by (simp add: comp_def)
  then show ?thesis
    by (metis (no_types) map_map map_idI comp_apply minus_minus)
qed

lemma fetched_run:
  assumes run: "consecutiveFrom f cursor run"
    and old: "list_all (\<lambda>c. periodStart f (completedAt c) \<le> cursor - int (length run) * periodMs f) older"
    and perm: "mset cs = mset (run @ older)"
  shows "map completedAt (last30 cs)
           = take 30 (map completedAt run @ map completedAt (orderByCompletedAtDesc older))"
proof -
  let ?o = "orderByCompletedAtDesc older"
  have so: "sorted (map (\<lambda>c. - completedAt c) ?o)"
    by (simp add: orderByCompletedAtDesc_def sorted_sort_key)
  have sr: "sorted (map (\<lambda>c. - completedAt c) run)"
    using run by (rule consecutiveFrom_sorted)
  have seto: "set ?o = set older" by (simp add: orderByCompletedAtDesc_def)
  have cross: "- completedAt r \<le> - completedAt c" if "r \<in> set run" and "c \<in> set ?o" for r c
  proof -
    from that(2) seto old have "periodStart f (completedAt c) \<le> cursor - int (length run) * periodMs f"
      by (simp add: list_all_iff)
    moreover from consecutiveFrom_bound[OF run that(1)]
    have "cursor - int (length run) * periodMs f < periodStart f (completedAt r)" by simp
    ultimately have "periodStart f (completedAt c) < periodStart f (completedAt r)" by linarith
    then have "completedAt c < completedAt r" by (rule periodStart_less)
    then show ?thesis by simp
  qed
  have "sorted (map (\<lambda>c. - completedAt c) (run @ ?o))"
    using so sr cross by (auto simp: sorted_append)
  moreover have "mset cs = mset (run @ ?o)"
    using perm by (simp add: orderByCompletedAtDesc_def)
  ultimately have "map completedAt (orderByCompletedAtDesc cs) = map completedAt (run @ ?o)"
    by (rule times_orderBy_unique)
  then show ?thesis
    by (simp add: last30_def take_map[symmetric])
qed

lemma streak_of_run:
  assumes run: "consecutiveFrom f (periodStart f asOf) run"
    and old: "list_all (\<lambda>c. periodStart f (completedAt c) < periodStart f asOf - int (length run) * periodMs f) older"
    and perm: "mset cs = mset (run @ older)"
  shows "currentStreak f (last30 cs) asOf = min (length run) 30"
proof -
  let ?P = "periodStart f asOf"
  let ?o = "orderByCompletedAtDesc older"
  have old': "list_all (\<lambda>c. periodStart f (completedAt c) \<le> ?P - int (length run) * periodMs f) older"
    using old by (auto simp: list_all_iff)
  have t: "map completedAt (last30 cs)
         = map completedAt (take 30 run) @ take (30 - length run) (map completedAt ?o)"
    using fetched_run[OF run old' perm] by (simp add: take_map)
  have w: "periodWalk (periodStart f) (periodMs f) ?P 0 (map completedAt (last30 cs))
      = periodWalk (periodStart f) (periodMs f) (?P - int (length (take 30 run)) * periodMs f)
          (0 + length (take 30 run)) (take (30 - length run) (map completedAt ?o))"
    unfolding t by (rule walk_run) (rule consecutiveFrom_take[OF run])
  show ?thesis
  proof (cases "30 \<le> length run")
    case True
    then show ?thesis using w by (simp add: currentStreak_walk min_def)
  next
    case False
    then have l: "length (take 30 run) = length run" by simp
    have "set ?o = set older" by (simp add: orderByCompletedAtDesc_def)
    with old have "list_all (\<lambda>t. periodStart f t < ?P - int (length run) * periodMs f)
                     (take (30 - length run) (map completedAt ?o))"
      by (auto simp: list_all_iff dest!: in_set_takeD)
    then have "periodWalk (periodStart f) (periodMs f) (?P - int (length run) * periodMs f)
                 (0 + length run) (take (30 - length run) (map completedAt ?o)) = 0 + length run"
      by (rule walk_stop)
    with w l False show ?thesis by (simp add: currentStreak_walk min_def)
  qed
qed

lemma streak_of_long_run:
  assumes run: "consecutiveFrom f (periodStart f asOf) run"
    and long: "30 \<le> length run"
    and old: "list_all (\<lambda>c. periodStart f (completedAt c) \<le> periodStart f asOf - int (length run) * periodMs f) older"
    and perm: "mset cs = mset (run @ older)"
  shows "currentStreak f (last30 cs) asOf = 30"
proof -
  let ?P = "periodStart f asOf"
  have t: "map completedAt (last30 cs) = map completedAt (take 30 run) @ []"
    using fetched_run[OF run old perm] long by (simp add: take_map)
  have "periodWalk (periodStart f) (periodMs f) ?P 0 (map completedAt (last30 cs))
      = periodWalk (periodStart f) (periodMs f) (?P - int (length (take 30 run)) * periodMs f)
          (0 + length (take 30 run)) []"
    unfolding t by (rule walk_run) (rule consecutiveFrom_take[OF run])
  then show ?thesis using long by (simp add: currentStreak_walk)
qed

lemma currentStreak_le: "currentStreak f (last30 cs) now \<le> 30"
proof -
  have "currentStreak f (last30 cs) now \<le> 0 + length (map completedAt (last30 cs))"
    unfolding currentStreak_walk by (rule walk_le)
  then show ?thesis by (simp add: last30_def)
qed

lemma dailyRun_consecutive:
  "consecutiveFrom Daily (day0 - int m * msPerDay) (map (\<lambda>i. rowAt (replicate (Suc i) CHR ''c'') (day0 + 43200000 - int i * msPerDay)) [m..<m+n])"
proof (induction n arbitrary: m)
  case 0
  then show ?case by simp
next
  case (Suc n)
  have "[m..<m + Suc n] = m # [Suc m..<Suc m + n]"
    by (simp add: upt_conv_Cons)
  moreover have "periodStart Daily (day0 + 43200000 - int m * msPerDay) = day0 - int m * msPerDay"
  proof -
    have e: "day0 + 43200000 - int m * msPerDay = 43200000 + (19725 - int m) * 86400000"
      by (simp add: day0_def msPerDay_def algebra_simps)
    have "(43200000 + (19725 - int m) * 86400000) div (86400000::int) = 19725 - int m"
      by simp
    then show ?thesis
      unfolding e by (simp add: periodStart_def setHours0_eq day0_def msPerDay_def algebra_simps)
  qed
  ultimately show ?case
    using Suc.IH[of "Suc m"] by (simp add: rowAt_def periodMs_def algebra_simps)
qed

lemma activityStreak_le: "activityStreak db activity now \<le> 30"
  by (simp add: activityStreak_def currentStreak_le split: option.split)

lemma profileHabits_le: "list_all (\<lambda>h. ph_streak h \<le> 30) (profileHabitsWithStats db uid now)"
  by (simp add: profileHabitsWithStats_def list_all_iff Let_def currentStreak_le)

lemma feed_completions:
  "map a_completion (buildActivityFeed db viewerId now) = recentActivity db (followedUserIds db viewerId)"
  by (simp add: buildActivityFeed_def comp_def)

lemma find_snoc:
  "find P (xs @ [y]) = (case find P xs of None \<Rightarrow> (if P y then Some y else None) | Some x \<Rightarrow> Some x)"
  by (induction xs) auto

lemma now_in_window:
  "fst (periodWindow f now) \<le> now \<and> now < snd (periodWindow f now)"
proof (cases f)
  case Daily
  have "0 \<le> now mod msPerDay" "now mod msPerDay < msPerDay"
    by (simp_all add: msPerDay_def)
  then show ?thesis using Daily
    by (simp add: periodWindow_def Let_def setHours0_def addDays_def)
next
  case Weekly
  have a: "0 \<le> now mod msPerDay" "now mod msPerDay < msPerDay"
    by (simp_all add: msPerDay_def)
  have g: "0 \<le> getDay (setHours0 now)" "getDay (setHours0 now) \<le> 6"
    by (simp_all add: getDay_def) 
  have m: "0 < msPerDay" by (simp add: msPerDay_def)
  have b: "0 \<le> getDay (setHours0 now) * msPerDay" using g m by simp
  have "getDay (setHours0 now) * msPerDay \<le> 6 * msPerDay"
    using g m by (simp add: mult_right_mono)
  then have "now mod msPerDay + getDay (setHours0 now) * msPerDay < 7 * msPerDay"
    using a by linarith
  with a b show ?thesis using Weekly
    by (simp add: periodWindow_def Let_def addDays_def) (simp add: setHours0_def)
qed

lemma findOwnedHabit_Some:
  "findOwnedHabit db hid uid = Some h \<Longrightarrow> h_id h = hid \<and> h_userId h = uid"
  by (auto simp: findOwnedHabit_def find_Some_iff)

lemma findOwnedHabit_completions [simp]:
  "findOwnedHabit (db\<lparr>completions := cs\<rparr>) hid uid = findOwnedHabit db hid uid"
  by (simp add: findOwnedHabit_def)

text \<open>The row a successful check-in creates.\<close>

lemma find_new_row:
  assumes h: "h_id h = hid"
    and w: "periodWindow (h_frequency h) now' = periodWindow (h_frequency h) now"
    and none: "findCompletionInPeriod db h uid now = None"
  shows "findCompletionInPeriod
           (db\<lparr>completions := completions db @
              [\<lparr> c_id = newId, c_habitId = hid, c_userId = uid, completedAt = now, c_notes = n \<rparr>]\<rparr>) h uid now'
         = Some \<lparr> c_id = newId, c_habitId = hid, c_userId = uid, completedAt = now, c_notes = n \<rparr>"
proof -
  obtain lo hi where p: "periodWindow (h_frequency h) now = (lo, hi)" by (cases "periodWindow (h_frequency h) now")
  from now_in_window[of "h_frequency h" now] p have "lo \<le> now" "now < hi" by simp_all
  with h w p none show ?thesis
    by (simp add: findCompletionInPeriod_def find_snoc)
qed

lemma find_same_window:
  "periodWindow (h_frequency h) now' = periodWindow (h_frequency h) now \<Longrightarrow>
     findCompletionInPeriod db h uid now' = findCompletionInPeriod db h uid now"
  by (simp add: findCompletionInPeriod_def)

lemma checkin_conflict:
  assumes "findOwnedHabit db hid (u_id u) = Some h"
    and "findCompletionInPeriod db h (u_id u) now = Some c"
  shows "POST_checkin db (Some u) hid memo newId now
           = (Error 400 ''Already completed for this period'', db)"
  unfolding POST_checkin_def by (simp only: assms option.case)

lemma checkin_create:
  assumes "findOwnedHabit db hid (u_id u) = Some h"
    and "findCompletionInPeriod db h (u_id u) now = None"
  shows "POST_checkin db (Some u) hid memo newId now
           = (Ok 201 \<lparr> c_id = newId, c_habitId = hid, c_userId = u_id u, completedAt = now,
                       c_notes = map_option trim memo \<rparr>,
              db\<lparr>completions := completions db @
                 [\<lparr> c_id = newId, c_habitId = hid, c_userId = u_id u, completedAt = now,
                    c_notes = map_option trim memo \<rparr>]\<rparr>)"
  unfolding POST_checkin_def by (simp only: assms option.case Let_def)

lemma second_after_create:
  assumes owner: "findOwnedHabit db hid (u_id u) = Some h"
    and none: "findCompletionInPeriod db h (u_id u) now = None"
    and w: "periodWindow (h_frequency h) now' = periodWindow (h_frequency h) now"
  shows "POST_checkin (snd (POST_checkin db (Some u) hid memo newId now)) (Some u) hid memo' newId' now'
           = (Error 400 ''Already completed for this period'',
              snd (POST_checkin db (Some u) hid memo newId now))"
proof -
  let ?row = "\<lparr> c_id = newId, c_habitId = hid, c_userId = u_id u, completedAt = now,
                c_notes = map_option trim memo \<rparr>"
  let ?db1 = "db\<lparr>completions := completions db @ [?row]\<rparr>"
  from owner have hid: "h_id h = hid" by (simp add: findOwnedHabit_Some)
  have d: "snd (POST_checkin db (Some u) hid memo newId now) = ?db1"
    by (simp only: checkin_create[OF owner none] snd_conv)
  have o: "findOwnedHabit ?db1 hid (u_id u) = Some h"
    by (simp only: findOwnedHabit_completions owner)
  have f: "findCompletionInPeriod ?db1 h (u_id u) now' = Some ?row"
    using hid w none by (rule find_new_row)
  show ?thesis
    unfolding d by (rule checkin_conflict[OF o f])
qed

lemma second_after_conflict:
  assumes owner: "findOwnedHabit db hid (u_id u) = Some h"
    and some: "findCompletionInPeriod db h (u_id u) now = Some c"
    and w: "periodWindow (h_frequency h) now' = periodWindow (h_frequency h) now"
  shows "POST_checkin (snd (POST_checkin db (Some u) hid memo newId now)) (Some u) hid memo' newId' now'
           = (Error 400 ''Already completed for this period'',
              snd (POST_checkin db (Some u) hid memo newId now))"
proof -
  have d: "snd (POST_checkin db (Some u) hid memo newId now) = db"
    by (simp only: checkin_conflict[OF owner some] snd_conv)
  have f: "findCompletionInPeriod db h (u_id u) now' = Some c"
    using some find_same_window[OF w, of db "u_id u"] by simp
  show ?thesis
    unfolding d by (rule checkin_conflict[OF owner f])
qed

lemma delete_by_id:
  "distinct (map c_id cs) \<Longrightarrow> c \<in> set cs \<Longrightarrow> filter (\<lambda>x. c_id x \<noteq> c_id c) cs = remove1 c cs"
proof (induction cs)
  case Nil
  then show ?case by simp
next
  case (Cons x cs)
  show ?case
  proof (cases "x = c")
    case True
    with Cons.prems have "c_id c \<notin> c_id ` set cs" by simp
    then have "\<forall>y \<in> set cs. c_id y \<noteq> c_id c" by (metis image_eqI)
    then have "filter (\<lambda>x. c_id x \<noteq> c_id c) cs = cs" by (simp add: filter_id_conv)
    with True show ?thesis by simp
  next
    case False
    with Cons.prems have "c \<in> set cs" by simp
    with Cons.prems have "c_id x \<noteq> c_id c" by auto
    with Cons False \<open>c \<in> set cs\<close> show ?thesis by simp
  qed
qed

lemma filter_remove1_other: "\<not> P c \<Longrightarrow> filter P (remove1 c cs) = filter P cs"
  by (induction cs) auto

lemma findCompletionInPeriod_Some:
  assumes "findCompletionInPeriod db h uid now = Some c"
  shows "c \<in> set (completions db) \<and> c_habitId c = h_id h \<and> c_userId c = uid
       \<and> fst (periodWindow (h_frequency h) now) \<le> completedAt c
       \<and> completedAt c < snd (periodWindow (h_frequency h) now)"
proof -
  obtain lo hi where p: "periodWindow (h_frequency h) now = (lo, hi)"
    by (cases "periodWindow (h_frequency h) now")
  from assms p have "find (\<lambda>c. c_habitId c = h_id h \<and> c_userId c = uid \<and> lo \<le> completedAt c \<and> completedAt c < hi)
        (completions db) = Some c"
    by (simp add: findCompletionInPeriod_def)
  then have "c \<in> set (completions db)" and "c_habitId c = h_id h \<and> c_userId c = uid \<and> lo \<le> completedAt c \<and> completedAt c < hi"
    by (auto simp: find_Some_iff)
  with p show ?thesis by simp
qed

lemma undo_none:
  assumes "findOwnedHabit db hid (u_id u) = Some h"
    and "findCompletionInPeriod db h (u_id u) now = None"
  shows "DELETE_checkin db (Some u) hid now = (Error 404 ''No completion found for this period'', db)"
  unfolding DELETE_checkin_def by (simp only: assms option.case)

lemma undo_some:
  assumes "findOwnedHabit db hid (u_id u) = Some h"
    and "findCompletionInPeriod db h (u_id u) now = Some c"
  shows "DELETE_checkin db (Some u) hid now
           = (Ok 200 ''Check-in removed successfully'',
              db\<lparr>completions := filter (\<lambda>x. c_id x \<noteq> c_id c) (completions db)\<rparr>)"
  unfolding DELETE_checkin_def by (simp only: assms option.case)

lemma undo_after_create:
  assumes owner: "findOwnedHabit db hid (u_id u) = Some h"
    and none: "findCompletionInPeriod db h (u_id u) now = None"
    and fresh: "newId \<notin> set (map c_id (completions db))"
    and w: "periodWindow (h_frequency h) now' = periodWindow (h_frequency h) now"
  shows "DELETE_checkin (snd (POST_checkin db (Some u) hid memo newId now)) (Some u) hid now'
           = (Ok 200 ''Check-in removed successfully'', db)"
proof -
  let ?row = "\<lparr> c_id = newId, c_habitId = hid, c_userId = u_id u, completedAt = now,
                c_notes = map_option trim memo \<rparr>"
  let ?db1 = "db\<lparr>completions := completions db @ [?row]\<rparr>"
  from owner have hid: "h_id h = hid" by (simp add: findOwnedHabit_Some)
  have d: "snd (POST_checkin db (Some u) hid memo newId now) = ?db1"
    by (simp only: checkin_create[OF owner none] snd_conv)
  have o: "findOwnedHabit ?db1 hid (u_id u) = Some h"
    by (simp only: findOwnedHabit_completions owner)
  have f: "findCompletionInPeriod ?db1 h (u_id u) now' = Some ?row"
    using hid w none by (rule find_new_row)
  from fresh have "filter (\<lambda>x. c_id x \<noteq> newId) (completions db) = completions db"
    by (auto simp: filter_id_conv)
  then have "?db1\<lparr>completions := filter (\<lambda>x. c_id x \<noteq> c_id ?row) (completions ?db1)\<rparr> = db"
    by simp
  then show ?thesis
    unfolding d by (simp only: undo_some[OF o f])
qed

lemma completedToday_daily:
  "completedToday Daily cs now
     = list_ex (\<lambda>c. periodStart Daily (completedAt c) = periodStart Daily now) cs"
  by (simp add: completedToday_def Let_def periodStart_def)

lemma signup_keeps_usernames_unique:
  assumes "usernamesUniqueCI db"
  shows "usernamesUniqueCI (snd (POST_signup isEmail hashPassword generateToken db emailIn password usernameIn newId now))"
proof (cases "signupSchema isEmail emailIn password usernameIn")
  case (Inl msg)
  with assms show ?thesis by (simp add: POST_signup_def)
next
  case (Inr p)
  obtain email username where p: "p = (email, username)" by (cases p)
  show ?thesis
  proof (cases "find (\<lambda>u. equalsInsensitive (u_email u) email \<or> equalsInsensitive (u_username u) username) (users db)")
    case (Some existingUser)
    with assms Inr p show ?thesis by (simp add: POST_signup_def)
  next
    case None
    then have "\<forall>u \<in> set (users db). toLowerCase (u_username u) \<noteq> toLowerCase username"
      by (auto simp: find_None_iff equalsInsensitive_def)
    then have "toLowerCase username \<notin> set (map (\<lambda>u. toLowerCase (u_username u)) (users db))"
      by auto
    with assms None Inr p show ?thesis
      by (simp add: POST_signup_def usernamesUniqueCI_def Let_def)
  qed
qed

lemma habits_entry_streak:
  assumes "GET_habits db (Some u) now = Ok 200 entries" and "e \<in> set entries"
  shows "streak (he_stats e)
           = currentStreak (h_frequency (he_habit e)) (last30 (completionsOfHabit db (h_id (he_habit e)))) now"
  using assms
  by (auto simp: GET_habits_def computeHabitStats_def habitWithStats_def)

lemma profile_habit_streak:
  assumes "ph \<in> set (profileHabitsWithStats db uid now)"
  shows "ph_streak ph
           = currentStreak (h_frequency (ph_habit ph)) (last30 (completionsOfHabit db (h_id (ph_habit ph)))) now"
  using assms by (auto simp: profileHabitsWithStats_def Let_def)

lemma profile_payload:
  assumes "GET_profile db (Some u) now = Ok 200 p"
  shows "\<exists>r::user. p_habits p = profileHabitsWithStats db (u_id r) now
           \<and> p_currentStreak p
               = (if length (p_habits p) > 0 then Max (set (map ph_streak (p_habits p))) else 0)"
proof -
  from assms obtain r where r: "find (\<lambda>r. u_id r = u_id u) (users db) = Some r"
    by (auto simp: GET_profile_def split: option.splits)
  from assms r have "p_habits p = profileHabitsWithStats db (u_id r) now
      \<and> p_currentStreak p = (if length (p_habits p) > 0 then Max (set (map ph_streak (p_habits p))) else 0)"
    by (auto simp: GET_profile_def Let_def)
  then show ?thesis by blast
qed

lemma feed_event_streak:
  assumes "a \<in> set (buildActivityFeed db viewerId now)"
  shows "a_streak a = activityStreak db (a_completion a) now"
  using assms by (auto simp: buildActivityFeed_def)

lemma feed_member:
  assumes "c \<in> set (recentActivity db (followedUserIds db viewerId))"
  shows "\<lparr> a_completion = c,
           a_user = map_option selectActivityUser (find (\<lambda>u. u_id u = c_userId c) (users db)),
           a_habit = map_option selectActivityHabit (find (\<lambda>h. h_id h = c_habitId c) (habits db)),
           a_streak = activityStreak db c now \<rparr> \<in> set (buildActivityFeed db viewerId now)"
  using assms by (auto simp: buildActivityFeed_def)

section \<open>The claims\<close>

text \<open>
  C1 at a weekly habit. The one completion is stamped Wednesday 2024-01-03 at noon and
  the evaluation instant is Thursday 2024-01-04, one second after midnight: both lie in
  the week that starts on Sunday 2023-12-31. The streak loop counts the completion
  (streak 1), but the completion flag is false: its weekly branch compares the
  completion moved to its Sunday, still at noon, with the week start at midnight.
\<close>

theorem weekly_flag_misses_completion:
  "periodStart Weekly (completedAt (rowAt ''a'' (day0 + 43200000))) = periodStart Weekly (day0 + 86401000)
   \<and> streak (computeHabitStats Weekly [rowAt ''a'' (day0 + 43200000)] (day0 + 86401000)) = 1
   \<and> completedCurrentPeriod (computeHabitStats Weekly [rowAt ''a'' (day0 + 43200000)] (day0 + 86401000)) = False"
  by code_simp

text \<open>
  C2. The statistics do not depend on the order in which the habit's completions are
  stored: two lists that are permutations of each other give the same streak, the
  same completion flag and the same progress, because the query orders the rows by
  timestamp (newest first) before the handler reads them, and the handler reads
  nothing but the timestamps.
\<close>

theorem stats_permutation_invariant:
  assumes "mset xs = mset ys"
  shows "computeHabitStats f xs asOf = computeHabitStats f ys asOf"
proof -
  have "map completedAt (last30 xs) = map completedAt (last30 ys)"
    using times_orderBy_perm[OF assms] by (simp add: last30_def take_map[symmetric])
  then show ?thesis
    by (simp add: computeHabitStats_def habitWithStats_def currentStreak_walk
        completedToday_times progress_def recent_times)
qed

theorem stats_permutation_invariant_witness:
  "mset [rowAt ''a'' (day0 + 5), rowAt ''b'' (day0 - 7)] = mset [rowAt ''b'' (day0 - 7), rowAt ''a'' (day0 + 5)]
   \<and> computeHabitStats Daily [rowAt ''a'' (day0 + 5), rowAt ''b'' (day0 - 7)] (day0 + 9)
     = computeHabitStats Daily [rowAt ''b'' (day0 - 7), rowAt ''a'' (day0 + 5)] (day0 + 9)"
proof -
  have h: "mset [rowAt ''a'' (day0 + 5), rowAt ''b'' (day0 - 7)]
         = mset [rowAt ''b'' (day0 - 7), rowAt ''a'' (day0 + 5)]"
    by simp
  show ?thesis
    using h stats_permutation_invariant[OF h, of Daily "day0 + 9"] by simp
qed

text \<open>
  C3, as the code has it. Let the habit's completions be a run of \<open>k + 1\<close> rows, one in
  the period of the evaluation instant and one in each of the \<open>k\<close> periods before it
  (days for a daily habit, Sunday-started weeks for a weekly one), together with older
  rows that all lie before the first missed period. Then the reported streak is
  \<open>k + 1\<close> as long as \<open>k + 1\<close> is at most 30, and 30 beyond that: only the 30 newest
  rows are fetched for the walk. The rows may be stored in any order.
\<close>

theorem streak_consecutive_run:
  assumes "consecutiveFrom f (periodStart f asOf) run"
    and "length run = Suc k"
    and "list_all (\<lambda>c. periodStart f (completedAt c) < periodStart f asOf - int (Suc k) * periodMs f) older"
    and "mset cs = mset (run @ older)"
  shows "streak (computeHabitStats f cs asOf) = min (Suc k) 30"
proof -
  have "currentStreak f (last30 cs) asOf = min (length run) 30"
    using assms(1) assms(3)[folded assms(2)] assms(4) by (rule streak_of_run)
  then show ?thesis
    by (simp add: computeHabitStats_def habitWithStats_def assms(2))
qed

theorem streak_consecutive_run_witness:
  "consecutiveFrom Weekly (periodStart Weekly (day0 + 50000000))
     [rowAt ''w1'' (day0 + 3600000), rowAt ''w2'' (day0 - 5 * msPerDay)]
   \<and> list_all (\<lambda>c. periodStart Weekly (completedAt c)
                    < periodStart Weekly (day0 + 50000000) - int (Suc 1) * periodMs Weekly)
        [rowAt ''w0'' (day0 - 20 * msPerDay)]
   \<and> streak (computeHabitStats Weekly
        [rowAt ''w0'' (day0 - 20 * msPerDay), rowAt ''w1'' (day0 + 3600000), rowAt ''w2'' (day0 - 5 * msPerDay)]
        (day0 + 50000000)) = 2"
proof -
  have a: "consecutiveFrom Weekly (periodStart Weekly (day0 + 50000000))
     [rowAt ''w1'' (day0 + 3600000), rowAt ''w2'' (day0 - 5 * msPerDay)]"
    by (simp add: rowAt_def periodStart_def weekStartOf_eq periodMs_def day0_def msPerDay_def)
  have b: "length [rowAt ''w1'' (day0 + 3600000), rowAt ''w2'' (day0 - 5 * msPerDay)] = Suc 1"
    by simp
  have c: "list_all (\<lambda>c. periodStart Weekly (completedAt c)
                    < periodStart Weekly (day0 + 50000000) - int (Suc 1) * periodMs Weekly)
        [rowAt ''w0'' (day0 - 20 * msPerDay)]"
    by (simp add: rowAt_def periodStart_def weekStartOf_eq periodMs_def day0_def msPerDay_def)
  have d: "mset [rowAt ''w0'' (day0 - 20 * msPerDay), rowAt ''w1'' (day0 + 3600000), rowAt ''w2'' (day0 - 5 * msPerDay)]
         = mset ([rowAt ''w1'' (day0 + 3600000), rowAt ''w2'' (day0 - 5 * msPerDay)] @ [rowAt ''w0'' (day0 - 20 * msPerDay)])"
    by simp
  from streak_consecutive_run[OF a b c d] a c show ?thesis by simp
qed

text \<open>
  C3 as stated fails for a run of 31 days (\<open>k = 30\<close>): the streak reported is 30, not 31.
\<close>

theorem streak_run_counterexample:
  "consecutiveFrom Daily (periodStart Daily (day0 + 50000000)) (dailyRun 31)
   \<and> length (dailyRun 31) = 30 + 1
   \<and> streak (computeHabitStats Daily (dailyRun 31) (day0 + 50000000)) = 30
   \<and> streak (computeHabitStats Daily (dailyRun 31) (day0 + 50000000)) \<noteq> 30 + 1"
proof -
  have p: "periodStart Daily (day0 + 50000000) = day0"
    by (simp add: periodStart_def setHours0_eq day0_def msPerDay_def)
  have c: "consecutiveFrom Daily (periodStart Daily (day0 + 50000000)) (dailyRun 31)"
    using dailyRun_consecutive[of 0 31] by (simp add: p dailyRun_def)
  have l: "length (dailyRun 31) = 31" by (simp add: dailyRun_def)
  have "currentStreak Daily (last30 (dailyRun 31)) (day0 + 50000000) = 30"
    by (rule streak_of_long_run[OF c, where older = "[]"]) (simp_all add: l)
  then show ?thesis using c l
    by (simp add: computeHabitStats_def habitWithStats_def)
qed

text \<open>
  C4. The progress percentage is \<open>min(100, round(100 * recent / expected))\<close>, where
  \<open>recent\<close> counts the habit's completions stamped at or after the evaluation instant
  minus 30 days and \<open>expected\<close> is 30 for a daily and 5 for a weekly habit. It lies
  between 0 and 100, and adding a completion inside the 30-day window never lowers it.
  Only the 30 newest rows are fetched, which changes nothing: with 30 recent rows the
  percentage is already 100.
\<close>

theorem progress_formula_bounds_monotone:
  "progressPercent (computeHabitStats f cs asOf)
     = min 100 (round (100 * real (length (filter (\<lambda>c. asOf - 30 * msPerDay \<le> completedAt c) cs))
                        / real_of_int (if f = Daily then 30 else 5)))
   \<and> 0 \<le> progressPercent (computeHabitStats f cs asOf)
   \<and> progressPercent (computeHabitStats f cs asOf) \<le> 100
   \<and> (asOf - 30 * msPerDay \<le> completedAt c \<longrightarrow>
        progressPercent (computeHabitStats f cs asOf) \<le> progressPercent (computeHabitStats f (c # cs) asOf))"
proof -
  let ?r = "\<lambda>xs. real (length (recentCompletions xs asOf)) / real_of_int (expectedCompletions f) * 100"
  have e: "0 < expectedCompletions f" by (simp add: expected_cases)
  have rc: "recentCompletions cs asOf = filter (\<lambda>c. asOf - 30 * msPerDay \<le> completedAt c) cs"
    by (simp add: recentCompletions_def addDays_def)
  have 1: "progressPercent (computeHabitStats f cs asOf)
     = min 100 (round (100 * real (length (filter (\<lambda>c. asOf - 30 * msPerDay \<le> completedAt c) cs))
                        / real_of_int (if f = Daily then 30 else 5)))"
    by (simp add: progress_computeHabitStats rc expected_cases mult.commute)
  have "0 \<le> ?r cs" using e by simp
  then have "round (0::real) \<le> round (?r cs)" by (rule round_mono)
  then have 2: "0 \<le> progressPercent (computeHabitStats f cs asOf)"
    by (simp add: progress_computeHabitStats)
  have 3: "progressPercent (computeHabitStats f cs asOf) \<le> 100"
    by (simp add: progress_computeHabitStats)
  have 4: "progressPercent (computeHabitStats f cs asOf) \<le> progressPercent (computeHabitStats f (c # cs) asOf)"
    if "asOf - 30 * msPerDay \<le> completedAt c"
  proof -
    have "length (recentCompletions (c # cs) asOf) = Suc (length (recentCompletions cs asOf))"
      using that by (simp add: recentCompletions_def addDays_def)
    then have "?r cs \<le> ?r (c # cs)"
      using e by (simp add: divide_right_mono)
    then have "round (?r cs) \<le> round (?r (c # cs))" by (rule round_mono)
    then show ?thesis
      by (simp add: progress_computeHabitStats min_def)
  qed
  from 1 2 3 4 show ?thesis by blast
qed

theorem progress_formula_bounds_monotone_witness:
  "progressPercent (computeHabitStats Weekly [rowAt ''a'' (day0 - 3 * msPerDay)] day0) = 20
   \<and> day0 - 30 * msPerDay \<le> completedAt (rowAt ''b'' (day0 - 9 * msPerDay))
   \<and> progressPercent (computeHabitStats Weekly [rowAt ''a'' (day0 - 3 * msPerDay)] day0)
      \<le> progressPercent (computeHabitStats Weekly [rowAt ''b'' (day0 - 9 * msPerDay), rowAt ''a'' (day0 - 3 * msPerDay)] day0)"
  using progress_formula_bounds_monotone[of Weekly "[rowAt ''a'' (day0 - 3 * msPerDay)]" day0 "rowAt ''b'' (day0 - 9 * msPerDay)"]
  by (simp add: rowAt_def day0_def msPerDay_def)

text \<open>
  C5. Let the habit belong to the requesting user. If a completion of the habit by that
  user lies in the window of the current period (the day from local midnight, or the
  seven days from the Sunday at or before today), the check-in answers with status 400
  and the message \<open>Already completed for this period\<close> (the conflict error) and
  leaves the store as it was. If none lies there, the check-in answers 201 and appends
  exactly one row, stamped with the current instant. In either case a further check-in
  at an instant of the same period is refused with that error and changes nothing.
\<close>

theorem checkin_once_per_period:
  assumes owner: "findOwnedHabit db hid (u_id u) = Some h"
  shows "(findCompletionInPeriod db h (u_id u) now \<noteq> None \<longrightarrow>
            POST_checkin db (Some u) hid memo newId now
              = (Error 400 ''Already completed for this period'', db))
       \<and> (findCompletionInPeriod db h (u_id u) now = None \<longrightarrow>
            POST_checkin db (Some u) hid memo newId now
              = (Ok 201 \<lparr> c_id = newId, c_habitId = hid, c_userId = u_id u, completedAt = now,
                          c_notes = map_option trim memo \<rparr>,
                 db\<lparr>completions := completions db @
                    [\<lparr> c_id = newId, c_habitId = hid, c_userId = u_id u, completedAt = now,
                       c_notes = map_option trim memo \<rparr>]\<rparr>))
       \<and> (periodWindow (h_frequency h) now' = periodWindow (h_frequency h) now \<longrightarrow>
            POST_checkin (snd (POST_checkin db (Some u) hid memo newId now)) (Some u) hid memo' newId' now'
              = (Error 400 ''Already completed for this period'',
                 snd (POST_checkin db (Some u) hid memo newId now)))"
proof (intro conjI impI)
  assume "findCompletionInPeriod db h (u_id u) now \<noteq> None"
  then obtain c where "findCompletionInPeriod db h (u_id u) now = Some c"
    by (cases "findCompletionInPeriod db h (u_id u) now") simp_all
  with owner show "POST_checkin db (Some u) hid memo newId now
        = (Error 400 ''Already completed for this period'', db)"
    by (rule checkin_conflict)
next
  assume "findCompletionInPeriod db h (u_id u) now = None"
  with owner show "POST_checkin db (Some u) hid memo newId now
        = (Ok 201 \<lparr> c_id = newId, c_habitId = hid, c_userId = u_id u, completedAt = now,
                    c_notes = map_option trim memo \<rparr>,
           db\<lparr>completions := completions db @
              [\<lparr> c_id = newId, c_habitId = hid, c_userId = u_id u, completedAt = now,
                 c_notes = map_option trim memo \<rparr>]\<rparr>)"
    by (rule checkin_create)
next
  assume w: "periodWindow (h_frequency h) now' = periodWindow (h_frequency h) now"
  show "POST_checkin (snd (POST_checkin db (Some u) hid memo newId now)) (Some u) hid memo' newId' now'
          = (Error 400 ''Already completed for this period'',
             snd (POST_checkin db (Some u) hid memo newId now))"
  proof (cases "findCompletionInPeriod db h (u_id u) now")
    case None
    with owner show ?thesis using w by (rule second_after_create)
  next
    case (Some c)
    with owner show ?thesis using w by (rule second_after_conflict)
  qed
qed

theorem checkin_once_per_period_witness:
  "findOwnedHabit exStore ''h1'' (u_id exAlice) = Some exHabit1
   \<and> findCompletionInPeriod exStore exHabit1 (u_id exAlice) exNow = None
   \<and> POST_checkin exStore (Some exAlice) ''h1'' (Some '' done '') ''c5'' exNow
       = (Ok 201 \<lparr> c_id = ''c5'', c_habitId = ''h1'', c_userId = u_id exAlice, completedAt = exNow,
                   c_notes = map_option trim (Some '' done '') \<rparr>,
          exStore\<lparr>completions := completions exStore @
             [\<lparr> c_id = ''c5'', c_habitId = ''h1'', c_userId = u_id exAlice, completedAt = exNow,
                c_notes = map_option trim (Some '' done '') \<rparr>]\<rparr>)
   \<and> map_option trim (Some '' done '') = Some ''done''
   \<and> periodWindow (h_frequency exHabit1) (exNow + 3600000) = periodWindow (h_frequency exHabit1) exNow
   \<and> POST_checkin (snd (POST_checkin exStore (Some exAlice) ''h1'' (Some '' done '') ''c5'' exNow))
         (Some exAlice) ''h1'' None ''c6'' (exNow + 3600000)
       = (Error 400 ''Already completed for this period'',
          snd (POST_checkin exStore (Some exAlice) ''h1'' (Some '' done '') ''c5'' exNow))
   \<and> findOwnedHabit exStore ''h2'' (u_id exBob) = Some exHabit2
   \<and> findCompletionInPeriod exStore exHabit2 (u_id exBob) exNow \<noteq> None
   \<and> POST_checkin exStore (Some exBob) ''h2'' None ''c5'' exNow
       = (Error 400 ''Already completed for this period'', exStore)"
proof -
  have a: "findOwnedHabit exStore ''h1'' (u_id exAlice) = Some exHabit1" by code_simp
  have b: "findCompletionInPeriod exStore exHabit1 (u_id exAlice) exNow = None" by code_simp
  have c: "periodWindow (h_frequency exHabit1) (exNow + 3600000) = periodWindow (h_frequency exHabit1) exNow"
    by code_simp
  have d: "findOwnedHabit exStore ''h2'' (u_id exBob) = Some exHabit2" by code_simp
  have e: "findCompletionInPeriod exStore exHabit2 (u_id exBob) exNow \<noteq> None" by code_simp
  have g: "map_option trim (Some '' done '') = Some ''done''" by code_simp
  note t1 = checkin_once_per_period[OF a, where now = exNow and now' = "exNow + 3600000"
              and memo = "Some '' done ''" and newId = "''c5''" and memo' = None and newId' = "''c6''"]
  note t2 = checkin_once_per_period[OF d, where now = exNow and now' = exNow
              and memo = None and newId = "''c5''" and memo' = None and newId' = "''c5''"]
  note p1 = t1[THEN conjunct2, THEN conjunct1, THEN mp, OF b]
  note p2 = t1[THEN conjunct2, THEN conjunct2, THEN mp, OF c]
  note p3 = t2[THEN conjunct1, THEN mp, OF e]
  from a b p1 g c p2 d e p3 show ?thesis by (intro conjI)
qed

text \<open>
  C6. Let the habit belong to the requesting user. If no completion lies in the current
  period and the id given to the new row is not in use, a check-in followed by an undo
  in the same period gives back exactly the store before the check-in. An undo with no
  completion in the current period answers 404 \<open>No completion found for this period\<close>
  and deletes nothing. With unique row ids, an undo that finds a completion deletes
  exactly that one row, which lies in the window of the current period; the rows of
  earlier periods stay as they were.
\<close>

theorem checkin_undo_roundtrip:
  assumes owner: "findOwnedHabit db hid (u_id u) = Some h"
  shows "(findCompletionInPeriod db h (u_id u) now = None
            \<and> newId \<notin> set (map c_id (completions db))
            \<and> periodWindow (h_frequency h) now' = periodWindow (h_frequency h) now \<longrightarrow>
            DELETE_checkin (snd (POST_checkin db (Some u) hid memo newId now)) (Some u) hid now'
              = (Ok 200 ''Check-in removed successfully'', db))
       \<and> (findCompletionInPeriod db h (u_id u) now = None \<longrightarrow>
            DELETE_checkin db (Some u) hid now = (Error 404 ''No completion found for this period'', db))
       \<and> (findCompletionInPeriod db h (u_id u) now = Some c \<and> distinct (map c_id (completions db)) \<longrightarrow>
            DELETE_checkin db (Some u) hid now
              = (Ok 200 ''Check-in removed successfully'', db\<lparr>completions := remove1 c (completions db)\<rparr>)
            \<and> c \<in> set (completions db)
            \<and> length (remove1 c (completions db)) + 1 = length (completions db)
            \<and> fst (periodWindow (h_frequency h) now) \<le> completedAt c
            \<and> completedAt c < snd (periodWindow (h_frequency h) now)
            \<and> filter (\<lambda>x. completedAt x < fst (periodWindow (h_frequency h) now)) (remove1 c (completions db))
                = filter (\<lambda>x. completedAt x < fst (periodWindow (h_frequency h) now)) (completions db))"
proof (intro conjI impI)
  assume "findCompletionInPeriod db h (u_id u) now = None
            \<and> newId \<notin> set (map c_id (completions db))
            \<and> periodWindow (h_frequency h) now' = periodWindow (h_frequency h) now"
  then show "DELETE_checkin (snd (POST_checkin db (Some u) hid memo newId now)) (Some u) hid now'
              = (Ok 200 ''Check-in removed successfully'', db)"
    using undo_after_create[OF owner] by blast
next
  assume "findCompletionInPeriod db h (u_id u) now = None"
  with owner show "DELETE_checkin db (Some u) hid now = (Error 404 ''No completion found for this period'', db)"
    by (rule undo_none)
next
  assume a: "findCompletionInPeriod db h (u_id u) now = Some c \<and> distinct (map c_id (completions db))"
  then have f: "findCompletionInPeriod db h (u_id u) now = Some c"
    and dist: "distinct (map c_id (completions db))" by simp_all
  note p = findCompletionInPeriod_Some[OF f]
  from p have mem: "c \<in> set (completions db)" by simp
  have r: "filter (\<lambda>x. c_id x \<noteq> c_id c) (completions db) = remove1 c (completions db)"
    using dist mem by (rule delete_by_id)
  show "DELETE_checkin db (Some u) hid now
          = (Ok 200 ''Check-in removed successfully'', db\<lparr>completions := remove1 c (completions db)\<rparr>)"
    by (simp only: undo_some[OF owner f] r)
  show "c \<in> set (completions db)" by (rule mem)
  show "length (remove1 c (completions db)) + 1 = length (completions db)"
    using mem by (simp add: length_remove1) (cases "completions db", simp_all)
  show "fst (periodWindow (h_frequency h) now) \<le> completedAt c" using p by simp
  show "completedAt c < snd (periodWindow (h_frequency h) now)" using p by simp
  have "\<not> completedAt c < fst (periodWindow (h_frequency h) now)" using p by simp
  then show "filter (\<lambda>x. completedAt x < fst (periodWindow (h_frequency h) now)) (remove1 c (completions db))
                = filter (\<lambda>x. completedAt x < fst (periodWindow (h_frequency h) now)) (completions db)"
    by (rule filter_remove1_other)
qed

theorem checkin_undo_roundtrip_witness:
  "findOwnedHabit exStore ''h1'' (u_id exAlice) = Some exHabit1
   \<and> findCompletionInPeriod exStore exHabit1 (u_id exAlice) exNow = None
   \<and> ''c5'' \<notin> set (map c_id (completions exStore))
   \<and> periodWindow (h_frequency exHabit1) (exNow + 3600000) = periodWindow (h_frequency exHabit1) exNow
   \<and> DELETE_checkin (snd (POST_checkin exStore (Some exAlice) ''h1'' None ''c5'' exNow))
         (Some exAlice) ''h1'' (exNow + 3600000)
       = (Ok 200 ''Check-in removed successfully'', exStore)
   \<and> DELETE_checkin exStore (Some exAlice) ''h1'' exNow
       = (Error 404 ''No completion found for this period'', exStore)
   \<and> findOwnedHabit exStore ''h2'' (u_id exBob) = Some exHabit2
   \<and> findCompletionInPeriod exStore exHabit2 (u_id exBob) exNow
       = Some \<lparr> c_id = ''c4'', c_habitId = ''h2'', c_userId = ''u2'', completedAt = day0 - 3 * msPerDay,
                 c_notes = Some ''chapter 2'' \<rparr>
   \<and> distinct (map c_id (completions exStore))
   \<and> DELETE_checkin exStore (Some exBob) ''h2'' exNow
       = (Ok 200 ''Check-in removed successfully'',
          exStore\<lparr>completions :=
             remove1 \<lparr> c_id = ''c4'', c_habitId = ''h2'', c_userId = ''u2'',
                       completedAt = day0 - 3 * msPerDay, c_notes = Some ''chapter 2'' \<rparr>
               (completions exStore)\<rparr>)"
proof -
  have a: "findOwnedHabit exStore ''h1'' (u_id exAlice) = Some exHabit1" by code_simp
  have b: "findCompletionInPeriod exStore exHabit1 (u_id exAlice) exNow = None" by code_simp
  have f: "''c5'' \<notin> set (map c_id (completions exStore))" by code_simp
  have c: "periodWindow (h_frequency exHabit1) (exNow + 3600000) = periodWindow (h_frequency exHabit1) exNow"
    by code_simp
  have d: "findOwnedHabit exStore ''h2'' (u_id exBob) = Some exHabit2" by code_simp
  have e: "findCompletionInPeriod exStore exHabit2 (u_id exBob) exNow
       = Some \<lparr> c_id = ''c4'', c_habitId = ''h2'', c_userId = ''u2'', completedAt = day0 - 3 * msPerDay,
                 c_notes = Some ''chapter 2'' \<rparr>" by code_simp
  have g: "distinct (map c_id (completions exStore))" by code_simp
  note t1 = checkin_undo_roundtrip[OF a, where now = exNow and now' = "exNow + 3600000"
              and memo = None and newId = "''c5''"]
  note t2 = checkin_undo_roundtrip[OF d, where now = exNow
              and c = "\<lparr> c_id = ''c4'', c_habitId = ''h2'', c_userId = ''u2'',
                         completedAt = day0 - 3 * msPerDay, c_notes = Some ''chapter 2'' \<rparr>"]
  note p1 = t1[THEN conjunct1, THEN mp, OF conjI[OF b conjI[OF f c]]]
  note p2 = t1[THEN conjunct2, THEN conjunct1, THEN mp, OF b]
  note p3 = t2[THEN conjunct2, THEN conjunct2, THEN mp, OF conjI[OF e g], THEN conjunct1]
  from a b f c p1 p2 d e g p3 show ?thesis by (intro conjI)
qed

text \<open>
  C7. For a signed-in viewer the activity feed is a success response. It is empty when the
  viewer follows nobody; it never has more than 50 events; every event is a stored
  completion of a user the viewer follows; and the events are in descending order of
  completion time.
\<close>

theorem activity_feed_properties:
  "GET_friends_activity db (Some viewer) now = Ok 200 (buildActivityFeed db (u_id viewer) now)
   \<and> (followedUserIds db (u_id viewer) = [] \<longrightarrow> buildActivityFeed db (u_id viewer) now = [])
   \<and> length (buildActivityFeed db (u_id viewer) now) \<le> 50
   \<and> list_all (\<lambda>a. a_completion a \<in> set (completions db)
                    \<and> c_userId (a_completion a) \<in> set (followedUserIds db (u_id viewer)))
         (buildActivityFeed db (u_id viewer) now)
   \<and> sorted_wrt (\<lambda>a b. completedAt (a_completion a) \<ge> completedAt (a_completion b))
         (buildActivityFeed db (u_id viewer) now)"
proof -
  let ?ids = "followedUserIds db (u_id viewer)"
  let ?feed = "buildActivityFeed db (u_id viewer) now"
  have 1: "GET_friends_activity db (Some viewer) now = Ok 200 ?feed"
    by (simp add: GET_friends_activity_def)
  have 2: "?feed = []" if "?ids = []"
    using that by (simp add: buildActivityFeed_def recentActivity_def orderByCompletedAtDesc_def)
  have 3: "length ?feed \<le> 50"
    by (simp add: buildActivityFeed_def recentActivity_def)
  have "set (recentActivity db ?ids) \<subseteq> {c \<in> set (completions db). c_userId c \<in> set ?ids}"
    by (auto simp: recentActivity_def orderByCompletedAtDesc_def dest!: in_set_takeD)
  moreover have "a_completion a \<in> set (recentActivity db ?ids)" if "a \<in> set ?feed" for a
    using that by (auto simp: buildActivityFeed_def)
  ultimately have 4: "list_all (\<lambda>a. a_completion a \<in> set (completions db) \<and> c_userId (a_completion a) \<in> set ?ids) ?feed"
    unfolding list_all_iff by blast
  have "sorted (map (\<lambda>c. - completedAt c) (recentActivity db ?ids))"
    unfolding recentActivity_def orderByCompletedAtDesc_def
    by (simp add: take_map[symmetric] sorted_wrt_take sorted_sort_key del: take_map)
  then have "sorted_wrt (\<lambda>a b. completedAt a \<ge> completedAt b) (recentActivity db ?ids)"
    by (simp add: sorted_wrt_map)
  then have "sorted_wrt (\<lambda>a b. completedAt a \<ge> completedAt b) (map a_completion ?feed)"
    by (simp only: feed_completions)
  then have 5: "sorted_wrt (\<lambda>a b. completedAt (a_completion a) \<ge> completedAt (a_completion b)) ?feed"
    by (simp only: sorted_wrt_map)
  from 1 2 3 4 5 show ?thesis by blast
qed

theorem activity_feed_properties_witness:
  "followedUserIds exStore (u_id exBob) = []
   \<and> buildActivityFeed exStore (u_id exBob) exNow = []
   \<and> followedUserIds exStore (u_id exAlice) = [''u2'']
   \<and> map (\<lambda>a. (c_id (a_completion a), c_userId (a_completion a), a_streak a))
         (buildActivityFeed exStore (u_id exAlice) exNow)
       = [(''c4'', ''u2'', 2), (''c3'', ''u2'', 2)]
   \<and> length (buildActivityFeed exStore (u_id exAlice) exNow) \<le> 50"
proof -
  have a: "followedUserIds exStore (u_id exBob) = []" by code_simp
  have b: "followedUserIds exStore (u_id exAlice) = [''u2'']" by code_simp
  have c: "map (\<lambda>a. (c_id (a_completion a), c_userId (a_completion a), a_streak a))
         (buildActivityFeed exStore (u_id exAlice) exNow)
       = [(''c4'', ''u2'', 2), (''c3'', ''u2'', 2)]" by code_simp
  from activity_feed_properties[of exStore exBob exNow] activity_feed_properties[of exStore exAlice exNow] a b c
  show ?thesis by simp
qed

text \<open>
  C8 at the profile update. In the example store the usernames \<open>alice\<close> and \<open>bob\<close> are
  unique up to case. Bob's update to the username \<open>Alice\<close> is accepted with status 200,
  and the store then holds \<open>alice\<close> and \<open>Alice\<close>; a signup with the username \<open>Alice\<close>
  is refused in the same store.
\<close>

theorem profile_update_breaks_username_uniqueness:
  "usernamesUniqueCI exStore
   \<and> equalsInsensitive ''Alice'' (u_username exAlice)
   \<and> fst (PUT_profile exIsUrl exStore (Some exBob)
            \<lparr> ud_username = Some ''Alice'', ud_bio = None, ud_avatar = None \<rparr>)
       = Ok 200 \<lparr> pu_id = ''u2'', pu_email = ''bob@example.org'', pu_username = ''Alice'',
                  pu_bio = None, pu_avatar = None \<rparr>
   \<and> map u_username (users (snd (PUT_profile exIsUrl exStore (Some exBob)
            \<lparr> ud_username = Some ''Alice'', ud_bio = None, ud_avatar = None \<rparr>)))
       = [''alice'', ''Alice'']
   \<and> usernamesUniqueCI (snd (PUT_profile exIsUrl exStore (Some exBob)
            \<lparr> ud_username = Some ''Alice'', ud_bio = None, ud_avatar = None \<rparr>)) = False
   \<and> POST_signup exIsEmail exHashPassword exGenerateToken
         exStore ''carol@example.org'' ''Passw0rd'' ''Alice'' ''u3'' exNow
       = (Error 400 ''Username already taken'', exStore)"
  by code_simp

text \<open>
  C9. For login requests with a well-formed email and a non-empty password, a failure
  because no user has the email and a failure because the password does not verify
  give the same response: status 401 with the message \<open>Invalid email or password\<close>,
  and no cookie.
\<close>

theorem login_failure_uniform:
  assumes "isEmail e1" and "isEmail e2" and "p1 \<noteq> []" and "p2 \<noteq> []"
    and unknown: "find (\<lambda>u. equalsInsensitive (u_email u) (toLowerCase e1)) (users db1) = None"
    and known: "find (\<lambda>u. equalsInsensitive (u_email u) (toLowerCase e2)) (users db2) = Some user"
    and wrong: "\<not> verifyPassword p2 (u_password user)"
  shows "POST_login isEmail verifyPassword generateToken db1 e1 p1
           = POST_login isEmail verifyPassword generateToken db2 e2 p2
       \<and> POST_login isEmail verifyPassword generateToken db1 e1 p1
           = Error 401 ''Invalid email or password''"
proof -
  have s1: "loginSchema isEmail e1 p1 = Inr ()" and s2: "loginSchema isEmail e2 p2 = Inr ()"
    using assms(1-4) by (simp_all add: loginSchema_def)
  have a: "POST_login isEmail verifyPassword generateToken db1 e1 p1 = Error 401 ''Invalid email or password''"
    by (simp add: POST_login_def s1 unknown)
  have b: "POST_login isEmail verifyPassword generateToken db2 e2 p2 = Error 401 ''Invalid email or password''"
    by (simp add: POST_login_def s2 known wrong)
  from a b show ?thesis by simp
qed

theorem login_failure_uniform_witness:
  "exIsEmail ''carol@example.org'' \<and> exIsEmail ''Alice@Example.org''
   \<and> find (\<lambda>u. equalsInsensitive (u_email u) (toLowerCase ''carol@example.org'')) (users exStore) = None
   \<and> find (\<lambda>u. equalsInsensitive (u_email u) (toLowerCase ''Alice@Example.org'')) (users exStore) = Some exAlice
   \<and> \<not> exVerifyPassword ''b'' (u_password exAlice)
   \<and> POST_login exIsEmail exVerifyPassword exGenerateToken exStore ''carol@example.org'' ''a''
     = POST_login exIsEmail exVerifyPassword exGenerateToken exStore ''Alice@Example.org'' ''b''
   \<and> POST_login exIsEmail exVerifyPassword exGenerateToken exStore ''carol@example.org'' ''a''
     = Error 401 ''Invalid email or password''"
proof -
  have a: "exIsEmail ''carol@example.org''" "exIsEmail ''Alice@Example.org''"
    by (simp_all add: exIsEmail_def)
  have b: "''a'' \<noteq> []" "''b'' \<noteq> []" by simp_all
  have c: "find (\<lambda>u. equalsInsensitive (u_email u) (toLowerCase ''carol@example.org'')) (users exStore) = None"
    by code_simp
  have d: "find (\<lambda>u. equalsInsensitive (u_email u) (toLowerCase ''Alice@Example.org'')) (users exStore) = Some exAlice"
    by code_simp
  have e: "\<not> exVerifyPassword ''b'' (u_password exAlice)" by code_simp
  note t = login_failure_uniform[where isEmail = exIsEmail and verifyPassword = exVerifyPassword
      and generateToken = exGenerateToken, OF a(1) a(2) b(1) b(2) c d e]
  from a c d e t[THEN conjunct1] t[THEN conjunct2] show ?thesis by (intro conjI)
qed

text \<open>
  C10, as the code has it. The streak reported by the habits listing, by the profile (per
  habit and as the user's current streak) and by the activity feed never exceeds 30,
  because each walk reads only the 30 newest completions fetched for the habit. If the
  completions the handler fetches from are a run of more than 30 consecutive periods up
  to the current one with exactly one completion in each, whatever older completions
  there are, then the listing, the profile (for the habit and as the current streak)
  and every feed event of the habit report the streak 30.
\<close>

theorem reported_streak_at_most_30:
  "(GET_habits db (Some u) now = Ok 200 entries \<longrightarrow> list_all (\<lambda>e. streak (he_stats e) \<le> 30) entries)
   \<and> (GET_profile db (Some u) now = Ok 200 p \<longrightarrow>
        list_all (\<lambda>h. ph_streak h \<le> 30) (p_habits p) \<and> p_currentStreak p \<le> 30)
   \<and> (GET_friends_activity db (Some u) now = Ok 200 events \<longrightarrow> list_all (\<lambda>a. a_streak a \<le> 30) events)
   \<and> (consecutiveFrom (h_frequency h) (periodStart (h_frequency h) now) run \<and> 30 < length run
        \<and> list_all (\<lambda>c. periodStart (h_frequency h) (completedAt c)
                          \<le> periodStart (h_frequency h) now - int (length run) * periodMs (h_frequency h)) older
        \<longrightarrow>
          (GET_habits db (Some u) now = Ok 200 entries \<and> e \<in> set entries \<and> he_habit e = h
             \<and> mset (completionsOfHabit db (h_id h)) = mset (run @ older)
             \<longrightarrow> streak (he_stats e) = 30)
        \<and> (GET_profile db (Some u) now = Ok 200 p \<and> ph \<in> set (p_habits p) \<and> ph_habit ph = h
             \<and> mset (completionsOfHabit db (h_id h)) = mset (run @ older)
             \<longrightarrow> ph_streak ph = 30 \<and> p_currentStreak p = 30)
        \<and> (GET_friends_activity db (Some u) now = Ok 200 events \<and> a \<in> set events
             \<and> find (\<lambda>x. h_id x = c_habitId (a_completion a)) (habits db) = Some h
             \<and> mset (filter (\<lambda>c. c_userId c = c_userId (a_completion a)) (completionsOfHabit db (h_id h)))
                 = mset (run @ older)
             \<longrightarrow> a_streak a = 30))"
proof -
  have 1: "list_all (\<lambda>e. streak (he_stats e) \<le> 30) entries"
    if "GET_habits db (Some u) now = Ok 200 entries"
    using that
    by (auto simp: GET_habits_def list_all_iff computeHabitStats_def habitWithStats_def currentStreak_le)
  have 2: "list_all (\<lambda>h. ph_streak h \<le> 30) (p_habits p) \<and> p_currentStreak p \<le> 30"
    if g: "GET_profile db (Some u) now = Ok 200 p"
  proof -
    from profile_payload[OF g] obtain r :: user where hp: "p_habits p = profileHabitsWithStats db (u_id r) now"
      and cp: "p_currentStreak p = (if length (p_habits p) > 0 then Max (set (map ph_streak (p_habits p))) else 0)"
      by blast
    have all: "list_all (\<lambda>h. ph_streak h \<le> 30) (p_habits p)"
      unfolding hp by (rule profileHabits_le)
    have "Max (set (map ph_streak (p_habits p))) \<le> 30" if "length (p_habits p) > 0"
    proof -
      from that have "set (map ph_streak (p_habits p)) \<noteq> {}" by auto
      moreover have "\<forall>x \<in> set (map ph_streak (p_habits p)). x \<le> 30"
        using all by (auto simp: list_all_iff)
      ultimately show ?thesis by (simp add: Max_le_iff del: set_map)
    qed
    with all cp show ?thesis by simp
  qed
  have 3: "list_all (\<lambda>a. a_streak a \<le> 30) events"
    if "GET_friends_activity db (Some u) now = Ok 200 events"
    using that
    by (auto simp: GET_friends_activity_def buildActivityFeed_def list_all_iff activityStreak_le)
  have 4: "streak (he_stats e) = 30"
    if run: "consecutiveFrom (h_frequency h) (periodStart (h_frequency h) now) run" and long: "30 < length run"
      and old: "list_all (\<lambda>c. periodStart (h_frequency h) (completedAt c)
                          \<le> periodStart (h_frequency h) now - int (length run) * periodMs (h_frequency h)) older"
      and g: "GET_habits db (Some u) now = Ok 200 entries" and e: "e \<in> set entries" and eh: "he_habit e = h"
      and m: "mset (completionsOfHabit db (h_id h)) = mset (run @ older)"
  proof -
    from long have l: "30 \<le> length run" by simp
    have "currentStreak (h_frequency h) (last30 (completionsOfHabit db (h_id h))) now = 30"
      using run l old m by (rule streak_of_long_run)
    then show ?thesis using habits_entry_streak[OF g e] eh by simp
  qed
  have 5: "ph_streak ph = 30 \<and> p_currentStreak p = 30"
    if run: "consecutiveFrom (h_frequency h) (periodStart (h_frequency h) now) run" and long: "30 < length run"
      and old: "list_all (\<lambda>c. periodStart (h_frequency h) (completedAt c)
                          \<le> periodStart (h_frequency h) now - int (length run) * periodMs (h_frequency h)) older"
      and g: "GET_profile db (Some u) now = Ok 200 p" and e: "ph \<in> set (p_habits p)" and eh: "ph_habit ph = h"
      and m: "mset (completionsOfHabit db (h_id h)) = mset (run @ older)"
  proof -
    from long have l: "30 \<le> length run" by simp
    from profile_payload[OF g] obtain r :: user where hp: "p_habits p = profileHabitsWithStats db (u_id r) now"
      and cp: "p_currentStreak p = (if length (p_habits p) > 0 then Max (set (map ph_streak (p_habits p))) else 0)"
      by blast
    have c: "currentStreak (h_frequency h) (last30 (completionsOfHabit db (h_id h))) now = 30"
      using run l old m by (rule streak_of_long_run)
    from e hp have "ph \<in> set (profileHabitsWithStats db (u_id r) now)" by simp
    from profile_habit_streak[OF this] eh c have s: "ph_streak ph = 30" by simp
    from e have ne: "length (p_habits p) > 0" by auto
    from 2[OF g] have "\<forall>x \<in> set (map ph_streak (p_habits p)). x \<le> 30"
      by (auto simp: list_all_iff)
    moreover from e s have "30 \<in> set (map ph_streak (p_habits p))" by force
    ultimately have "Max (set (map ph_streak (p_habits p))) = 30"
      by (intro Max_eqI) auto
    with cp ne s show ?thesis by simp
  qed
  have 6: "a_streak a = 30"
    if run: "consecutiveFrom (h_frequency h) (periodStart (h_frequency h) now) run" and long: "30 < length run"
      and old: "list_all (\<lambda>c. periodStart (h_frequency h) (completedAt c)
                          \<le> periodStart (h_frequency h) now - int (length run) * periodMs (h_frequency h)) older"
      and g: "GET_friends_activity db (Some u) now = Ok 200 events" and e: "a \<in> set events"
      and f: "find (\<lambda>x. h_id x = c_habitId (a_completion a)) (habits db) = Some h"
      and m: "mset (filter (\<lambda>c. c_userId c = c_userId (a_completion a)) (completionsOfHabit db (h_id h)))
                 = mset (run @ older)"
  proof -
    from long have l: "30 \<le> length run" by simp
    from g e have "a \<in> set (buildActivityFeed db (u_id u) now)"
      by (simp add: GET_friends_activity_def)
    then have "a_streak a = activityStreak db (a_completion a) now" by (rule feed_event_streak)
    also have "\<dots> = currentStreak (h_frequency h)
        (last30 (filter (\<lambda>c. c_userId c = c_userId (a_completion a)) (completionsOfHabit db (h_id h)))) now"
      by (simp add: activityStreak_def f)
    also have "\<dots> = 30" using run l old m by (rule streak_of_long_run)
    finally show ?thesis .
  qed
  show ?thesis
  proof (intro conjI impI)
    assume "GET_habits db (Some u) now = Ok 200 entries"
    then show "list_all (\<lambda>e. streak (he_stats e) \<le> 30) entries" by (rule 1)
  next
    assume "GET_profile db (Some u) now = Ok 200 p"
    from 2[OF this] show "list_all (\<lambda>h. ph_streak h \<le> 30) (p_habits p)" by simp
  next
    assume "GET_profile db (Some u) now = Ok 200 p"
    from 2[OF this] show "p_currentStreak p \<le> 30" by simp
  next
    assume "GET_friends_activity db (Some u) now = Ok 200 events"
    then show "list_all (\<lambda>a. a_streak a \<le> 30) events" by (rule 3)
  next
    assume a: "consecutiveFrom (h_frequency h) (periodStart (h_frequency h) now) run \<and> 30 < length run
        \<and> list_all (\<lambda>c. periodStart (h_frequency h) (completedAt c)
                          \<le> periodStart (h_frequency h) now - int (length run) * periodMs (h_frequency h)) older"
      and b: "GET_habits db (Some u) now = Ok 200 entries \<and> e \<in> set entries \<and> he_habit e = h
             \<and> mset (completionsOfHabit db (h_id h)) = mset (run @ older)"
    from a b show "streak (he_stats e) = 30" using 4 by blast
  next
    assume a: "consecutiveFrom (h_frequency h) (periodStart (h_frequency h) now) run \<and> 30 < length run
        \<and> list_all (\<lambda>c. periodStart (h_frequency h) (completedAt c)
                          \<le> periodStart (h_frequency h) now - int (length run) * periodMs (h_frequency h)) older"
      and b: "GET_profile db (Some u) now = Ok 200 p \<and> ph \<in> set (p_habits p) \<and> ph_habit ph = h
             \<and> mset (completionsOfHabit db (h_id h)) = mset (run @ older)"
    from a b have "ph_streak ph = 30 \<and> p_currentStreak p = 30" using 5 by blast
    then show "ph_streak ph = 30" and "p_currentStreak p = 30" by simp_all
  next
    assume a: "consecutiveFrom (h_frequency h) (periodStart (h_frequency h) now) run \<and> 30 < length run
        \<and> list_all (\<lambda>c. periodStart (h_frequency h) (completedAt c)
                          \<le> periodStart (h_frequency h) now - int (length run) * periodMs (h_frequency h)) older"
      and b: "GET_friends_activity db (Some u) now = Ok 200 events \<and> a \<in> set events
             \<and> find (\<lambda>x. h_id x = c_habitId (a_completion a)) (habits db) = Some h
             \<and> mset (filter (\<lambda>c. c_userId c = c_userId (a_completion a)) (completionsOfHabit db (h_id h)))
                 = mset (run @ older)"
    from a b show "a_streak a = 30" using 6 by blast
  qed
qed

theorem reported_streak_at_most_30_witness:
  "consecutiveFrom (h_frequency exHabit1) (periodStart (h_frequency exHabit1) exNow) (dailyRun 31)
   \<and> 30 < length (dailyRun 31)
   \<and> mset (completionsOfHabit exLongStore (h_id exHabit1)) = mset (dailyRun 31 @ [])
   \<and> GET_habits exLongStore (Some exAlice) exNow
       = Ok 200 [\<lparr> he_habit = exHabit1,
                    he_stats = \<lparr> streak = 30, completedCurrentPeriod = True, progressPercent = 100 \<rparr>,
                    he_totalCompletions = 31 \<rparr>]
   \<and> GET_profile exLongStore (Some exAlice) exNow
       = Ok 200 \<lparr> p_user = selectPublic exAlice, p_totalHabits = 1, p_totalCompletions = 31,
                   p_followersCount = 1, p_followingCount = 0, p_currentStreak = 30, p_longestStreak = 30,
                   p_habits = [\<lparr> ph_habit = exHabit1, ph_streak = 30, ph_progress = 100,
                                 ph_totalCompletions = 31 \<rparr>] \<rparr>
   \<and> GET_friends_activity exLongStore (Some exBob) exNow
       = Ok 200 (buildActivityFeed exLongStore (u_id exBob) exNow)
   \<and> rowAt ''c'' (day0 + 43200000) \<in> set (recentActivity exLongStore (followedUserIds exLongStore (u_id exBob)))
   \<and> list_all (\<lambda>a. a_streak a \<le> 30) (buildActivityFeed exLongStore (u_id exBob) exNow)
   \<and> activityStreak exLongStore (rowAt ''c'' (day0 + 43200000)) exNow = 30"
proof -
  let ?E = "\<lparr> he_habit = exHabit1,
              he_stats = \<lparr> streak = 30, completedCurrentPeriod = True, progressPercent = 100 \<rparr>,
              he_totalCompletions = 31 \<rparr>"
  let ?H = "\<lparr> ph_habit = exHabit1, ph_streak = 30, ph_progress = 100, ph_totalCompletions = 31 \<rparr>"
  let ?P = "\<lparr> p_user = selectPublic exAlice, p_totalHabits = 1, p_totalCompletions = 31,
              p_followersCount = 1, p_followingCount = 0, p_currentStreak = 30, p_longestStreak = 30,
              p_habits = [?H] \<rparr>"
  let ?c = "rowAt ''c'' (day0 + 43200000)"
  let ?A = "\<lparr> a_completion = ?c,
              a_user = map_option selectActivityUser (find (\<lambda>u. u_id u = c_userId ?c) (users exLongStore)),
              a_habit = map_option selectActivityHabit (find (\<lambda>h. h_id h = c_habitId ?c) (habits exLongStore)),
              a_streak = activityStreak exLongStore ?c exNow \<rparr>"
  have fq: "h_frequency exHabit1 = Daily" by (simp add: exHabit1_def)
  have ps: "periodStart Daily exNow = day0"
    by (simp add: periodStart_def setHours0_eq exNow_def day0_def msPerDay_def)
  have r: "consecutiveFrom (h_frequency exHabit1) (periodStart (h_frequency exHabit1) exNow) (dailyRun 31)"
    using dailyRun_consecutive[of 0 31] by (simp add: fq ps dailyRun_def)
  have l: "30 < length (dailyRun 31)" by (simp add: dailyRun_def)
  have o: "list_all (\<lambda>c. periodStart (h_frequency exHabit1) (completedAt c)
              \<le> periodStart (h_frequency exHabit1) exNow - int (length (dailyRun 31)) * periodMs (h_frequency exHabit1)) []"
    by simp
  have cs: "completionsOfHabit exLongStore (h_id exHabit1) = dailyRun 31"
    by (simp add: completionsOfHabit_def exLongStore_def exHabit1_def dailyRun_def rowAt_def filter_map comp_def)
  have m1: "mset (completionsOfHabit exLongStore (h_id exHabit1)) = mset (dailyRun 31 @ [])"
    by (simp add: cs)
  have m3: "mset (filter (\<lambda>c. c_userId c = c_userId (a_completion ?A)) (completionsOfHabit exLongStore (h_id exHabit1)))
              = mset (dailyRun 31 @ [])"
    unfolding cs by (simp add: dailyRun_def rowAt_def filter_map comp_def)
  have g1: "GET_habits exLongStore (Some exAlice) exNow = Ok 200 [?E]" by code_simp
  have g2: "GET_profile exLongStore (Some exAlice) exNow = Ok 200 ?P" by code_simp
  have g3: "GET_friends_activity exLongStore (Some exBob) exNow
              = Ok 200 (buildActivityFeed exLongStore (u_id exBob) exNow)"
    by (simp add: GET_friends_activity_def)
  have c: "?c \<in> set (recentActivity exLongStore (followedUserIds exLongStore (u_id exBob)))"
    by code_simp
  have a: "?A \<in> set (buildActivityFeed exLongStore (u_id exBob) exNow)"
    using c by (rule feed_member)
  have f: "find (\<lambda>x. h_id x = c_habitId (a_completion ?A)) (habits exLongStore) = Some exHabit1"
    by (simp add: exLongStore_def exHabit1_def rowAt_def)
  note t2 = reported_streak_at_most_30[where db = exLongStore and u = exBob and now = exNow
      and h = exHabit1 and run = "dailyRun 31" and older = "[]"
      and events = "buildActivityFeed exLongStore (u_id exBob) exNow" and a = ?A]
  note long = conjI[OF r conjI[OF l o]]
  note q3 = t2[THEN conjunct2, THEN conjunct2, THEN conjunct1, THEN mp, OF g3]
  note q6 = t2[THEN conjunct2, THEN conjunct2, THEN conjunct2, THEN mp, OF long,
               THEN conjunct2, THEN conjunct2, THEN mp, OF conjI[OF g3 conjI[OF a conjI[OF f m3]]]]
  from q6 have s: "activityStreak exLongStore ?c exNow = 30" by simp
  from r l m1 g1 g2 g3 c q3 s show ?thesis by (intro conjI)
qed

text \<open>
  C10 as stated fails when a period holds more than one completion. A weekly habit has
  one completion in each of the 30 weeks before the current one and two in the current
  week: each of the 31 weeks up to the current one holds a completion, and the streak
  reported is 29, since the 30 newest rows reach back only 29 weeks.
\<close>

theorem long_run_counterexample:
  "runOfPeriods Weekly exNow 31 (rowAt ''t'' (day0 - msPerDay + 43200000) # weeklyRun 31)
   \<and> streak (computeHabitStats Weekly (rowAt ''t'' (day0 - msPerDay + 43200000) # weeklyRun 31) exNow) = 29
   \<and> streak (computeHabitStats Weekly (rowAt ''t'' (day0 - msPerDay + 43200000) # weeklyRun 31) exNow) \<noteq> 30"
  by code_simp

end
